theory Spec2Isabelle
  imports Complex_Main "HOL-Library.Multiset"
begin

section \<open>Nucor Runner (game.js): configuration\<close>

text \<open>
  JavaScript numbers are modelled as mathematical reals (\<open>Math.log10\<close> as \<open>log 10\<close>,
  \<open>sin\<close> as \<open>sin\<close>, p5's \<open>floor\<close> as the integer floor).  Quantities that the
  program only ever holds as whole numbers (score, high score, frame counter, spawn
  intervals) are modelled as \<open>int\<close>.  Rendering is not modelled.
\<close>

type_synonym rgb = "real \<times> real \<times> real"
type_synonym rgba = "real \<times> real \<times> real \<times> real"

definition nucorGreen :: rgb where "nucorGreen = (0, 125, 65)"
definition joistHighlight :: rgb where "joistHighlight = (220, 220, 220)"
definition joistGold :: rgb where "joistGold = (255, 215, 0)"

definition PLAYER_SIZE :: real where "PLAYER_SIZE = 60"
definition OBSTACLE_SIZE :: real where "OBSTACLE_SIZE = 55"
definition JOIST_WIDTH :: real where "JOIST_WIDTH = 70"
definition JOIST_HEIGHT :: real where "JOIST_HEIGHT = 35"

definition GRAVITY :: real where "GRAVITY = 0.6"
definition JUMP_FORCE :: real where "JUMP_FORCE = - 13"
definition VARIABLE_JUMP_DAMPING :: real where "VARIABLE_JUMP_DAMPING = 0.5"
definition GROUND_OFFSET :: real where "GROUND_OFFSET = 0.8"
definition INITIAL_GAME_SPEED :: real where "INITIAL_GAME_SPEED = 5"

definition SPEED_LOG_BASE :: real where "SPEED_LOG_BASE = 3.0"
definition SPEED_LOG_SCALE :: real where "SPEED_LOG_SCALE = 0.015"
definition SPAWN_RATE_LOG_BASE :: real where "SPAWN_RATE_LOG_BASE = 20"
definition SPAWN_RATE_LOG_SCALE :: real where "SPAWN_RATE_LOG_SCALE = 0.012"

definition MIN_OBSTACLE_SPAWN_RATE :: real where "MIN_OBSTACLE_SPAWN_RATE = 40"
definition MIN_JOIST_SPAWN_RATE :: real where "MIN_JOIST_SPAWN_RATE = 60"
definition BASE_OBSTACLE_SPAWN_RATE :: real where "BASE_OBSTACLE_SPAWN_RATE = 120"
definition BASE_JOIST_SPAWN_RATE :: real where "BASE_JOIST_SPAWN_RATE = 160"

definition VERTICAL_MOVE_START_DISTANCE :: real where "VERTICAL_MOVE_START_DISTANCE = 1000"
definition VERTICAL_MOVE_CHANCE :: real where "VERTICAL_MOVE_CHANCE = 0.35"
definition VERTICAL_MOVE_RANGE :: real where "VERTICAL_MOVE_RANGE = PLAYER_SIZE * 1.8"
definition VERTICAL_MOVE_SPEED :: real where "VERTICAL_MOVE_SPEED = 0.04"

definition COLLECT_PARTICLES :: nat where "COLLECT_PARTICLES = 15"
definition PARTICLE_LIFETIME :: real where "PARTICLE_LIFETIME = 40"

section \<open>Bounding boxes\<close>

text \<open>The object literal \<open>{ left, right, top, bottom }\<close> returned by every \<open>getBounds\<close>.\<close>

record bounds =
  b_left :: real
  b_right :: real
  b_top :: real
  b_bottom :: real

text \<open>\<open>rectOverlap(rect1, rect2)\<close>.\<close>

definition rectOverlap :: "bounds \<Rightarrow> bounds \<Rightarrow> bool" where
  "rectOverlap rect1 rect2 \<longleftrightarrow>
     b_left rect1 < b_right rect2 \<and>
     b_right rect1 > b_left rect2 \<and>
     b_top rect1 < b_bottom rect2 \<and>
     b_bottom rect1 > b_top rect2"

section \<open>Entities and run state\<close>

text \<open>The object returned by \<open>createPlayer\<close>.\<close>

record playerObj =
  p_x :: real
  p_y :: real
  p_vy :: real
  p_size :: real
  p_onGround :: bool
  p_jumpAnimation :: real

datatype obstacleType = NM | CA

text \<open>
  The object returned by \<open>createObstacle\<close> (the image and tint colour, which only the
  renderer reads, are left out).  \<open>o_positionType\<close> is 0 for a ground obstacle and 1 for a
  flying one.
\<close>

record obstacleObj =
  o_x :: real
  o_y :: real
  o_initialY :: real
  o_type :: obstacleType
  o_size :: real
  o_width :: real
  o_positionType :: nat
  o_rotation :: real
  o_wobbleOffset :: real
  o_canMoveVertically :: bool
  o_verticalMoveOffset :: real

text \<open>The object returned by \<open>createJoist\<close>.\<close>

record joistObj =
  j_x :: real
  j_y :: real
  j_baseY :: real
  j_width :: real
  j_height :: real
  j_isGolden :: bool
  j_rotation :: real
  j_hover :: real
  j_animOffset :: real

text \<open>
  A particle object.  Particles are shared between the two arrays \<open>activeParticles\<close> and
  \<open>particlePool\<close> by reference, so they live in an explicit heap: a reference is an
  address, \<open>p = {}\<close> allocates the next unused address.
\<close>

record particleObj =
  pt_x :: real
  pt_y :: real
  pt_vx :: real
  pt_vy :: real
  pt_size :: real
  pt_color :: rgba
  pt_life :: real
  pt_active :: bool

type_synonym ref = nat

text \<open>
  The global variables of the script, together with what the host supplies: p5's
  \<open>width\<close> and \<open>frameCount\<close>, the stored high score (\<open>localStorage\<close>, absent when
  \<open>None\<close>; \<open>storageThrows\<close> says whether accessing it raises), and the stream of values
  that successive calls of p5's \<open>random()\<close> return (\<open>rands\<close>, read at position \<open>rix\<close>).
\<close>

record game =
  player :: playerObj
  obstacles :: "obstacleObj list"
  joists :: "joistObj list"
  heap :: "ref \<Rightarrow> particleObj"
  nextRef :: ref
  activeParticles :: "ref list"
  particlePool :: "ref list"
  score :: int
  highScore :: int
  distance :: real
  gameOver :: bool
  gameStarted :: bool
  gameSpeed :: real
  groundY :: real
  isJumping :: bool
  frameCount :: int
  width :: real
  localStorage :: "int option"
  storageThrows :: bool
  rands :: "nat \<Rightarrow> real"
  rix :: nat

subsection \<open>p5's random\<close>

text \<open>\<open>random()\<close>, \<open>random(max)\<close> and \<open>random(min, max)\<close>.\<close>

definition random0 :: "game \<Rightarrow> real \<times> game" where
  "random0 s = (rands s (rix s), s\<lparr>rix := rix s + 1\<rparr>)"

definition random1 :: "real \<Rightarrow> game \<Rightarrow> real \<times> game" where
  "random1 hi s = (rands s (rix s) * hi, s\<lparr>rix := rix s + 1\<rparr>)"

definition random2 :: "real \<Rightarrow> real \<Rightarrow> game \<Rightarrow> real \<times> game" where
  "random2 lo hi s = (rands s (rix s) * (hi - lo) + lo, s\<lparr>rix := rix s + 1\<rparr>)"

subsection \<open>Array removal by swap and pop\<close>

text \<open>\<open>arr[i] = arr[arr.length - 1]; arr.pop();\<close>\<close>

definition swapPop :: "nat \<Rightarrow> 'a list \<Rightarrow> 'a list" where
  "swapPop i arr = butlast (arr[i := last arr])"

section \<open>Player\<close>

definition createPlayer :: "game \<Rightarrow> playerObj" where
  "createPlayer s =
     \<lparr>p_x = width s * 0.15, p_y = groundY s - PLAYER_SIZE / 2, p_vy = 0,
      p_size = PLAYER_SIZE, p_onGround = True, p_jumpAnimation = 0\<rparr>"

text \<open>\<open>player.update()\<close>\<close>

definition playerUpdate :: "game \<Rightarrow> game" where
  "playerUpdate s =
     (let this = player s;
          vy = p_vy this + GRAVITY;
          y = p_y this + vy
      in if y \<ge> groundY s - p_size this / 2 then
           s\<lparr>player := this\<lparr>p_y := groundY s - p_size this / 2, p_vy := 0,
                 p_onGround := True,
                 p_jumpAnimation := (if \<not> p_onGround this then 0 else p_jumpAnimation this)\<rparr>\<rparr>
         else
           s\<lparr>player := this\<lparr>p_y := y, p_vy := vy, p_onGround := False,
                 p_jumpAnimation := p_jumpAnimation this + 0.1\<rparr>\<rparr>)"

text \<open>\<open>player.jump()\<close> (the time stamp \<open>lastJumpTime\<close>, which nothing reads, is left out).\<close>

definition playerJump :: "game \<Rightarrow> game" where
  "playerJump s =
     (if p_onGround (player s) then
        s\<lparr>player := (player s)\<lparr>p_vy := JUMP_FORCE, p_onGround := False\<rparr>, isJumping := True\<rparr>
      else s)"

text \<open>\<open>player.handleJumpRelease()\<close>\<close>

definition playerHandleJumpRelease :: "game \<Rightarrow> game" where
  "playerHandleJumpRelease s =
     (let s1 = (if p_vy (player s) < 0 then
                  s\<lparr>player := (player s)\<lparr>p_vy := p_vy (player s) * VARIABLE_JUMP_DAMPING\<rparr>\<rparr>
                else s)
      in s1\<lparr>isJumping := False\<rparr>)"

text \<open>\<open>player.getBounds()\<close>\<close>

definition playerGetBounds :: "playerObj \<Rightarrow> bounds" where
  "playerGetBounds this =
     (let w = p_size this * 0.6; h = p_size this * 0.9
      in \<lparr>b_left = p_x this - w / 2, b_right = p_x this + w / 2,
          b_top = p_y this - h / 2, b_bottom = p_y this + h / 2\<rparr>)"

section \<open>Obstacles\<close>

text \<open>
  \<open>createObstacle()\<close>.  The calls of \<open>random\<close> are made in the order of the source;
  the two draws for the vertical movement happen only when the conditions before them
  hold (\<open>&&\<close> evaluates its right operand only then).
\<close>

definition createObstacle :: "game \<Rightarrow> obstacleObj \<times> game" where
  "createObstacle s =
     (let (r1, s1) = random0 s;
          otype = (if r1 > 0.5 then NM else CA);
          sz = OBSTACLE_SIZE;
          approxWidth = (if otype = NM then sz * 1.1 else sz * 1.0);
          (r2, s2) = random0 s1;
          positionType = (if r2 > 0.3 then 0 else 1 :: nat);
          yPos = (if positionType = 0 then groundY s2 - sz / 2
                  else min (groundY s2 - p_size (player s2) * 1.1 - sz / 2)
                           (groundY s2 - sz * 1.5));
          (canMoveVertically, verticalMoveOffset, s4) =
            (if distance s2 > VERTICAL_MOVE_START_DISTANCE then
               (let (r3, s3) = random0 s2
                in if r3 < VERTICAL_MOVE_CHANCE then
                     (let (r4, s4) = random1 (2 * pi) s3 in (True, r4, s4))
                   else (False, 0, s3))
             else (False, 0, s2));
          (wobbleOffset, s5) = random1 (2 * pi) s4
      in (\<lparr>o_x = width s5 + sz, o_y = yPos, o_initialY = yPos, o_type = otype,
           o_size = sz, o_width = approxWidth, o_positionType = positionType,
           o_rotation = 0, o_wobbleOffset = wobbleOffset,
           o_canMoveVertically = canMoveVertically,
           o_verticalMoveOffset = verticalMoveOffset\<rparr>, s5))"

text \<open>The obstacle's \<open>update()\<close>; it reads \<open>gameSpeed\<close>, \<open>frameCount\<close> and \<open>groundY\<close>.\<close>

definition obstacleUpdate :: "game \<Rightarrow> obstacleObj \<Rightarrow> obstacleObj" where
  "obstacleUpdate s this =
     (let x = o_x this - gameSpeed s;
          wobbleSpeed = 0.05 + (gameSpeed s - INITIAL_GAME_SPEED) * 0.005;
          wobbleAmount = 0.1 + (gameSpeed s - INITIAL_GAME_SPEED) * 0.01;
          rotation = sin (real_of_int (frameCount s) * wobbleSpeed + o_wobbleOffset this)
                       * wobbleAmount;
          y = (if o_canMoveVertically this then
                 (let dynamicMoveSpeed =
                        VERTICAL_MOVE_SPEED + (gameSpeed s - INITIAL_GAME_SPEED) * 0.001;
                      offsetY = (sin (real_of_int (frameCount s) * dynamicMoveSpeed
                                       + o_verticalMoveOffset this) * VERTICAL_MOVE_RANGE) / 2;
                      y1 = o_initialY this + offsetY;
                      y2 = max y1 (o_size this / 2)
                  in min y2 (groundY s - o_size this / 2))
               else if o_positionType this = 1 then
                 (let hoverSpeed = 0.1 + (gameSpeed s - INITIAL_GAME_SPEED) * 0.008;
                      hoverAmount = 0.5 + (gameSpeed s - INITIAL_GAME_SPEED) * 0.1
                  in o_initialY this
                       + sin (real_of_int (frameCount s) * hoverSpeed + o_wobbleOffset this
                              + pi / 2) * hoverAmount)
               else o_initialY this)
      in this\<lparr>o_x := x, o_rotation := rotation, o_y := y\<rparr>)"

definition obstacleIsOffScreen :: "obstacleObj \<Rightarrow> bool" where
  "obstacleIsOffScreen this \<longleftrightarrow> o_x this < - o_size this * 2"

definition obstacleGetBounds :: "obstacleObj \<Rightarrow> bounds" where
  "obstacleGetBounds this =
     \<lparr>b_left = o_x this - (o_width this / 2) * 0.9,
      b_right = o_x this + (o_width this / 2) * 0.9,
      b_top = o_y this - (o_size this / 2) * 0.9,
      b_bottom = o_y this + (o_size this / 2) * 0.9\<rparr>"

text \<open>
  \<open>handleObstacles()\<close>: the loop runs \<open>i\<close> from \<open>length - 1\<close> down to 0; the model's
  counter is \<open>i + 1\<close>.
\<close>

fun obstacleLoop :: "game \<Rightarrow> nat \<Rightarrow> obstacleObj list \<Rightarrow> obstacleObj list" where
  "obstacleLoop s 0 obs = obs"
| "obstacleLoop s (Suc i) obs =
     (let obs1 = obs[i := obstacleUpdate s (obs ! i)]
      in if obstacleIsOffScreen (obs1 ! i) then obstacleLoop s i (swapPop i obs1)
         else obstacleLoop s i obs1)"

definition handleObstacles :: "game \<Rightarrow> game" where
  "handleObstacles s = s\<lparr>obstacles := obstacleLoop s (length (obstacles s)) (obstacles s)\<rparr>"

section \<open>Joists\<close>

text \<open>\<open>createJoist(forceGolden)\<close>; \<open>||\<close> draws its random number only when not forced.\<close>

definition createJoist :: "bool \<Rightarrow> game \<Rightarrow> joistObj \<times> game" where
  "createJoist forceGolden s =
     (let w = JOIST_WIDTH;
          h = JOIST_HEIGHT;
          (r1, s1) = random0 s;
          spawnY0 = (if r1 > 0.6 then groundY s1 - h * 1.5 else groundY s1 - h * 3.5);
          spawnY = max spawnY0 (h * 2);
          (isGolden, s2) =
            (if forceGolden then (True, s1)
             else (let (r2, s2) = random0 s1 in (r2 < 0.15, s2)));
          (animOffset, s3) = random1 (2 * pi) s2
      in (\<lparr>j_x = width s3 + w, j_y = spawnY, j_baseY = spawnY, j_width = w, j_height = h,
           j_isGolden = isGolden, j_rotation = 0, j_hover = 0, j_animOffset = animOffset\<rparr>,
          s3))"

definition joistUpdate :: "game \<Rightarrow> joistObj \<Rightarrow> joistObj" where
  "joistUpdate s this =
     (let x = j_x this - gameSpeed s;
          hoverSpeed = 0.1 + (gameSpeed s - INITIAL_GAME_SPEED) * 0.005;
          hover = sin (real_of_int (frameCount s) * hoverSpeed + j_animOffset this) * 3;
          rotSpeed = 0.03 + (gameSpeed s - INITIAL_GAME_SPEED) * 0.002;
          rotation = sin (real_of_int (frameCount s) * rotSpeed + x * 0.01) * 0.05
      in this\<lparr>j_x := x, j_hover := hover, j_rotation := rotation, j_y := j_baseY this + hover\<rparr>)"

definition joistIsOffScreen :: "joistObj \<Rightarrow> bool" where
  "joistIsOffScreen this \<longleftrightarrow> j_x this < - j_width this"

definition joistGetBounds :: "joistObj \<Rightarrow> bounds" where
  "joistGetBounds this =
     \<lparr>b_left = j_x this - j_width this / 2, b_right = j_x this + j_width this / 2,
      b_top = j_y this - j_height this / 2, b_bottom = j_y this + j_height this / 2\<rparr>"

fun joistLoop :: "game \<Rightarrow> nat \<Rightarrow> joistObj list \<Rightarrow> joistObj list" where
  "joistLoop s 0 js = js"
| "joistLoop s (Suc i) js =
     (let js1 = js[i := joistUpdate s (js ! i)]
      in if joistIsOffScreen (js1 ! i) then joistLoop s i (swapPop i js1)
         else joistLoop s i js1)"

definition handleJoists :: "game \<Rightarrow> game" where
  "handleJoists s = s\<lparr>joists := joistLoop s (length (joists s)) (joists s)\<rparr>"

section \<open>Particle system\<close>

text \<open>
  The pattern that both particle bursts start with:
  \<open>if (particlePool.length > 0) p = particlePool.pop(); else p = {};\<close>
\<close>

definition acquire :: "game \<Rightarrow> ref \<times> game" where
  "acquire s =
     (if length (particlePool s) > 0 then
        (last (particlePool s), s\<lparr>particlePool := butlast (particlePool s)\<rparr>)
      else (nextRef s, s\<lparr>nextRef := nextRef s + 1\<rparr>))"

text \<open>One iteration of the loop of \<open>createCollectParticles(x, y, color)\<close>.\<close>

definition collectParticle :: "real \<Rightarrow> real \<Rightarrow> rgb \<Rightarrow> game \<Rightarrow> game" where
  "collectParticle x y color s =
     (let (p, s1) = acquire s;
          (vx, s2) = random2 (- 3) 3 s1;
          (vy, s3) = random2 (- 5) 0 s2;
          (sz, s4) = random2 3 8 s3
      in s4\<lparr>heap := (heap s4)(p :=
               \<lparr>pt_x = x, pt_y = y, pt_vx = vx, pt_vy = vy, pt_size = sz,
                pt_color = (fst color, fst (snd color), snd (snd color), 255),
                pt_life = PARTICLE_LIFETIME, pt_active = True\<rparr>),
            activeParticles := activeParticles s4 @ [p]\<rparr>)"

primrec collectLoop :: "nat \<Rightarrow> real \<Rightarrow> real \<Rightarrow> rgb \<Rightarrow> game \<Rightarrow> game" where
  "collectLoop 0 x y color s = s"
| "collectLoop (Suc n) x y color s = collectLoop n x y color (collectParticle x y color s)"

definition createCollectParticles :: "real \<Rightarrow> real \<Rightarrow> rgb \<Rightarrow> game \<Rightarrow> game" where
  "createCollectParticles x y color s = collectLoop COLLECT_PARTICLES x y color s"

text \<open>
  \<open>updateParticles()\<close>: again \<open>i\<close> runs from \<open>length - 1\<close> down to 0 and the model's
  counter is \<open>i + 1\<close>.
\<close>

fun particleLoop :: "nat \<Rightarrow> game \<Rightarrow> game" where
  "particleLoop 0 s = s"
| "particleLoop (Suc i) s =
     (let p = activeParticles s ! i;
          obj = heap s p;
          vy = pt_vy obj + 0.1;
          life = pt_life obj - 1;
          alpha = (life / PARTICLE_LIFETIME) * 255;
          obj1 = obj\<lparr>pt_vy := vy, pt_x := pt_x obj + pt_vx obj, pt_y := pt_y obj + vy, pt_life := life,
                 pt_color := (case pt_color obj of (r, g, b, a) \<Rightarrow> (r, g, b, alpha))\<rparr>
      in if life \<le> 0 then
           particleLoop i
             (s\<lparr>heap := (heap s)(p := obj1\<lparr>pt_active := False\<rparr>),
                particlePool := particlePool s @ [p],
                activeParticles := swapPop i (activeParticles s)\<rparr>)
         else particleLoop i (s\<lparr>heap := (heap s)(p := obj1)\<rparr>))"

definition updateParticles :: "game \<Rightarrow> game" where
  "updateParticles s = particleLoop (length (activeParticles s)) s"

text \<open>
  The statements of one iteration of that loop, taken apart.  \<open>particleAdvance\<close> is the
  body up to the test \<open>p.life <= 0\<close>; \<open>particleRetirePush\<close> is
  \<open>p.active = false; particlePool.push(p);\<close> and \<open>particleRetireRemove\<close> the swap and
  pop on \<open>activeParticles\<close> that follows it.  \<open>particleIter\<close> is the whole iteration.
\<close>

definition particleAdvance :: "nat \<Rightarrow> game \<Rightarrow> game" where
  "particleAdvance i s =
     (let p = activeParticles s ! i;
          obj = heap s p;
          vy = pt_vy obj + 0.1;
          life = pt_life obj - 1;
          alpha = (life / PARTICLE_LIFETIME) * 255
      in s\<lparr>heap := (heap s)(p :=
              obj\<lparr>pt_vy := vy, pt_x := pt_x obj + pt_vx obj, pt_y := pt_y obj + vy,
                  pt_life := life,
                  pt_color := (case pt_color obj of (r, g, b, a) \<Rightarrow> (r, g, b, alpha))\<rparr>)\<rparr>)"

definition particleRetirePush :: "nat \<Rightarrow> game \<Rightarrow> game" where
  "particleRetirePush i s =
     (let p = activeParticles s ! i
      in s\<lparr>heap := (heap s)(p := (heap s p)\<lparr>pt_active := False\<rparr>),
            particlePool := particlePool s @ [p]\<rparr>)"

definition particleRetireRemove :: "nat \<Rightarrow> game \<Rightarrow> game" where
  "particleRetireRemove i s = s\<lparr>activeParticles := swapPop i (activeParticles s)\<rparr>"

definition particleIter :: "nat \<Rightarrow> game \<Rightarrow> game" where
  "particleIter i s =
     (let s1 = particleAdvance i s
      in if pt_life (heap s1 (activeParticles s1 ! i)) \<le> 0 then
           particleRetireRemove i (particleRetirePush i s1)
         else s1)"

section \<open>Spawning\<close>

text \<open>The local variables of \<open>spawnElements()\<close>, as functions of \<open>distance\<close>.\<close>

definition rateReduction :: "real \<Rightarrow> real" where
  "rateReduction d = SPAWN_RATE_LOG_BASE * log 10 (1 + d * SPAWN_RATE_LOG_SCALE)"

definition obstacleSpawnRate :: "real \<Rightarrow> int" where
  "obstacleSpawnRate d =
     \<lfloor>max MIN_OBSTACLE_SPAWN_RATE (BASE_OBSTACLE_SPAWN_RATE - rateReduction d)\<rfloor>"

definition joistSpawnRate :: "real \<Rightarrow> int" where
  "joistSpawnRate d = \<lfloor>max MIN_JOIST_SPAWN_RATE (BASE_JOIST_SPAWN_RATE - rateReduction d)\<rfloor>"

definition goldenJoistSpawnRate :: "real \<Rightarrow> int" where
  "goldenJoistSpawnRate d = joistSpawnRate d * 5"

text \<open>The three blocks of \<open>spawnElements()\<close>, in the order of the source.\<close>

definition spawnObstacle :: "game \<Rightarrow> game" where
  "spawnObstacle s =
     (if frameCount s mod obstacleSpawnRate (distance s) = 0 then
        (let (ob, s') = createObstacle s in s'\<lparr>obstacles := obstacles s' @ [ob]\<rparr>)
      else s)"

definition spawnJoist :: "game \<Rightarrow> game" where
  "spawnJoist s =
     (if frameCount s mod joistSpawnRate (distance s) = 0 then
        (let (r, s') = random0 s
         in if r > 0.3 then
              (let (j, s'') = createJoist False s' in s''\<lparr>joists := joists s'' @ [j]\<rparr>)
            else s')
      else s)"

definition spawnGoldenJoist :: "game \<Rightarrow> game" where
  "spawnGoldenJoist s =
     (if frameCount s mod goldenJoistSpawnRate (distance s) = 0 then
        (let (r, s') = random0 s
         in if r > 0.6 then
              (let (j, s'') = createJoist True s' in s''\<lparr>joists := joists s'' @ [j]\<rparr>)
            else s')
      else s)"

definition spawnElements :: "game \<Rightarrow> game" where
  "spawnElements s = spawnGoldenJoist (spawnJoist (spawnObstacle s))"

section \<open>Collisions\<close>

text \<open>One iteration of the explosion loop in \<open>checkCollisions()\<close>.\<close>

definition explosionParticle :: "game \<Rightarrow> game" where
  "explosionParticle s =
     (let (p, s1) = acquire s;
          (vx, s2) = random2 (- 5) 5 s1;
          (vy, s3) = random2 (- 8) 2 s2;
          (sz, s4) = random2 5 15 s3
      in s4\<lparr>heap := (heap s4)(p :=
               \<lparr>pt_x = p_x (player s4), pt_y = p_y (player s4), pt_vx = vx, pt_vy = vy,
                pt_size = sz,
                pt_color = (fst nucorGreen, fst (snd nucorGreen), snd (snd nucorGreen), 255),
                pt_life = PARTICLE_LIFETIME * 1.5, pt_active = True\<rparr>),
            activeParticles := activeParticles s4 @ [p]\<rparr>)"

primrec explosionLoop :: "nat \<Rightarrow> game \<Rightarrow> game" where
  "explosionLoop 0 s = s"
| "explosionLoop (Suc n) s = explosionLoop n (explosionParticle s)"

text \<open>
  The body of the \<open>if (rectOverlap(playerBounds, obsBounds))\<close> branch, up to its
  \<open>return\<close>.  \<open>localStorage.setItem\<close> is inside \<open>try\<close>: when it raises, only the stored
  value is not written.
\<close>

definition obstacleHit :: "game \<Rightarrow> game" where
  "obstacleHit s =
     (let s1 = s\<lparr>gameOver := True\<rparr>;
          s2 = explosionLoop 30 s1
      in if score s2 > highScore s2 then
           (let s3 = s2\<lparr>highScore := score s2\<rparr>
            in if storageThrows s3 then s3 else s3\<lparr>localStorage := Some (highScore s3)\<rparr>)
         else s2)"

text \<open>
  The \<open>for (let obs of obstacles)\<close> loop; \<open>Some\<close> is the state at the early \<open>return\<close>,
  \<open>None\<close> means the loop ran to its end.
\<close>

fun obstaclePass :: "bounds \<Rightarrow> obstacleObj list \<Rightarrow> game \<Rightarrow> game option" where
  "obstaclePass playerBounds [] s = None"
| "obstaclePass playerBounds (obs # rest) s =
     (if rectOverlap playerBounds (obstacleGetBounds obs) then Some (obstacleHit s)
      else obstaclePass playerBounds rest s)"

text \<open>The joist loop, \<open>i\<close> from \<open>length - 1\<close> down to 0 (counter \<open>i + 1\<close>).\<close>

fun joistPass :: "bounds \<Rightarrow> nat \<Rightarrow> game \<Rightarrow> game" where
  "joistPass playerBounds 0 s = s"
| "joistPass playerBounds (Suc i) s =
     (let joist = joists s ! i
      in if rectOverlap playerBounds (joistGetBounds joist) then
           (let s1 = (if j_isGolden joist then
                        createCollectParticles (j_x joist) (j_y joist) joistGold
                          (s\<lparr>score := score s + 5\<rparr>)
                      else
                        createCollectParticles (j_x joist) (j_y joist) joistHighlight
                          (s\<lparr>score := score s + 1\<rparr>))
            in joistPass playerBounds i (s1\<lparr>joists := swapPop i (joists s1)\<rparr>))
         else joistPass playerBounds i s)"

definition checkCollisions :: "game \<Rightarrow> game" where
  "checkCollisions s =
     (let playerBounds = playerGetBounds (player s)
      in case obstaclePass playerBounds (obstacles s) s of
           Some s' \<Rightarrow> s'
         | None \<Rightarrow> joistPass playerBounds (length (joists s)) s)"

section \<open>Frame update, reset, input\<close>

definition updateGame :: "game \<Rightarrow> game" where
  "updateGame s =
     (let s1 = playerUpdate s;
          s2 = handleObstacles s1;
          s3 = handleJoists s2;
          s4 = updateParticles s3;
          s5 = spawnElements s4;
          s6 = s5\<lparr>distance := distance s5 + gameSpeed s5 / 10\<rparr>;
          s7 = s6\<lparr>gameSpeed := INITIAL_GAME_SPEED
                     + SPEED_LOG_BASE * log 10 (1 + distance s6 * SPEED_LOG_SCALE)\<rparr>
      in if \<not> isJumping s7 \<and> p_vy (player s7) < - JUMP_FORCE * 0.2 then
           playerHandleJumpRelease s7
         else s7)"

definition resetGame :: "game \<Rightarrow> game" where
  "resetGame s =
     (let s1 = s\<lparr>score := 0, distance := 0, gameSpeed := INITIAL_GAME_SPEED,
                 obstacles := [], joists := [], activeParticles := []\<rparr>;
          s2 = s1\<lparr>player := createPlayer s1\<rparr>
      in s2\<lparr>gameOver := False, isJumping := False, frameCount := 0\<rparr>)"

text \<open>
  \<open>draw()\<close>, without the rendering calls.  The host increments \<open>frameCount\<close> before each
  call; that increment is \<open>tick\<close>.
\<close>

definition draw :: "game \<Rightarrow> game" where
  "draw s =
     (if \<not> gameStarted s then s
      else if \<not> gameOver s then checkCollisions (updateGame s)
      else s)"

definition tick :: "game \<Rightarrow> game" where
  "tick s = draw (s\<lparr>frameCount := frameCount s + 1\<rparr>)"

definition handleInputStart :: "game \<Rightarrow> game" where
  "handleInputStart s =
     (if \<not> gameStarted s then s\<lparr>gameStarted := True\<rparr>
      else if gameOver s then resetGame s
      else playerJump s)"

definition handleInputEnd :: "game \<Rightarrow> game" where
  "handleInputEnd s =
     (let s1 = (if \<not> gameOver s \<and> gameStarted s then playerHandleJumpRelease s else s)
      in s1\<lparr>isJumping := False\<rparr>)"

text \<open>
  \<open>windowResized()\<close> for the new window size (the background arrays are not modelled;
  the player object exists from the start).
\<close>

definition windowResized :: "real \<Rightarrow> real \<Rightarrow> game \<Rightarrow> game" where
  "windowResized windowWidth windowHeight s =
     (let s1 = s\<lparr>width := windowWidth, groundY := windowHeight * GROUND_OFFSET\<rparr>;
          pl = (player s1)\<lparr>p_x := width s1 * 0.15\<rparr>
      in if p_y pl + p_size pl / 2 > groundY s1 then
           s1\<lparr>player := pl\<lparr>p_y := groundY s1 - p_size pl / 2, p_vy := 0, p_onGround := True\<rparr>\<rparr>
         else s1\<lparr>player := pl\<rparr>)"

text \<open>
  The script's \<open>setup()\<close>, from the initial values of the global variables: the window size, the
  stored high score, whether the storage raises, the random stream and the (unused)
  contents of the heap are the host's.
\<close>

definition gameSetup ::
  "real \<Rightarrow> real \<Rightarrow> int option \<Rightarrow> bool \<Rightarrow> (nat \<Rightarrow> real) \<Rightarrow> (ref \<Rightarrow> particleObj) \<Rightarrow> game" where
  "gameSetup windowWidth windowHeight stored throws rs hp =
     (let s0 = \<lparr>player = \<lparr>p_x = 0, p_y = 0, p_vy = 0, p_size = 0, p_onGround = False,
                           p_jumpAnimation = 0\<rparr>,
                 obstacles = [], joists = [], heap = hp, nextRef = 0,
                 activeParticles = [], particlePool = [], score = 0, highScore = 0,
                 distance = 0, gameOver = False, gameStarted = False,
                 gameSpeed = INITIAL_GAME_SPEED, groundY = windowHeight * GROUND_OFFSET,
                 isJumping = False, frameCount = 0, width = windowWidth,
                 localStorage = stored, storageThrows = throws, rands = rs, rix = 0\<rparr>;
          s1 = resetGame s0
      in if throws then s1
         else (case localStorage s1 of None \<Rightarrow> s1 | Some v \<Rightarrow> s1\<lparr>highScore := v\<rparr>))"

section \<open>The formulas of the specification\<close>

text \<open>
  The progression curves as the specification writes them, with the script's constants:
  \<open>speed(distance) = baseSpeed + logBase * log10(1 + distance * logScale)\<close> and
  \<open>spawnInterval(distance, baseInterval, minInterval) =
    max(minInterval, baseInterval - spawnLogBase * log10(1 + distance * spawnLogScale))\<close>.
\<close>

definition spec_speed :: "real \<Rightarrow> real" where
  "spec_speed d = INITIAL_GAME_SPEED + SPEED_LOG_BASE * log 10 (1 + d * SPEED_LOG_SCALE)"

definition spec_spawnInterval :: "real \<Rightarrow> real \<Rightarrow> real \<Rightarrow> real" where
  "spec_spawnInterval d baseInterval minInterval =
     max minInterval
       (baseInterval - SPAWN_RATE_LOG_BASE * log 10 (1 + d * SPAWN_RATE_LOG_SCALE))"

section \<open>Auxiliary notions for the proofs\<close>

text \<open>
  \<open>spawnShape s s'\<close>: \<open>s'\<close> is \<open>s\<close> with at most the obstacle and joist arrays and the
  position in the random stream changed.  \<open>particleShape s s'\<close>: \<open>s'\<close> is \<open>s\<close> with at most
  the particle heap, the allocation pointer, the two particle arrays and the position in
  the random stream changed.
\<close>

definition spawnShape :: "game \<Rightarrow> game \<Rightarrow> bool" where
  "spawnShape s s' \<longleftrightarrow>
     player s' = player s \<and> heap s' = heap s \<and> nextRef s' = nextRef s
     \<and> activeParticles s' = activeParticles s \<and> particlePool s' = particlePool s
     \<and> score s' = score s \<and> highScore s' = highScore s \<and> distance s' = distance s
     \<and> gameOver s' = gameOver s \<and> gameStarted s' = gameStarted s
     \<and> gameSpeed s' = gameSpeed s \<and> groundY s' = groundY s \<and> isJumping s' = isJumping s
     \<and> frameCount s' = frameCount s \<and> width s' = width s
     \<and> localStorage s' = localStorage s \<and> storageThrows s' = storageThrows s
     \<and> rands s' = rands s"

definition particleShape :: "game \<Rightarrow> game \<Rightarrow> bool" where
  "particleShape s s' \<longleftrightarrow>
     player s' = player s \<and> obstacles s' = obstacles s \<and> joists s' = joists s
     \<and> score s' = score s \<and> highScore s' = highScore s \<and> distance s' = distance s
     \<and> gameOver s' = gameOver s \<and> gameStarted s' = gameStarted s
     \<and> gameSpeed s' = gameSpeed s \<and> groundY s' = groundY s \<and> isJumping s' = isJumping s
     \<and> frameCount s' = frameCount s \<and> width s' = width s
     \<and> localStorage s' = localStorage s \<and> storageThrows s' = storageThrows s
     \<and> rands s' = rands s"

text \<open>
  The particle invariant: the two arrays together hold each reference at most once, hold
  only allocated references, and no pooled particle has its \<open>active\<close> flag set.
\<close>

definition particlesOk :: "game \<Rightarrow> bool" where
  "particlesOk s \<longleftrightarrow>
     distinct (activeParticles s @ particlePool s)
     \<and> list_all (\<lambda>p. p < nextRef s) (activeParticles s @ particlePool s)
     \<and> list_all (\<lambda>p. \<not> pt_active (heap s p)) (particlePool s)"

text \<open>The particle objects the system owns, as a multiset of references.\<close>

definition ownedParticles :: "game \<Rightarrow> ref multiset" where
  "ownedParticles s = mset (activeParticles s) + mset (particlePool s)"

text \<open>
  The gap between the ground line and the bottom of an obstacle's collision box, and the
  height of the player's collision box.
\<close>

definition clearance :: "game \<Rightarrow> obstacleObj \<Rightarrow> real" where
  "clearance s ob = groundY s - b_bottom (obstacleGetBounds ob)"

definition playerCollisionHeight :: "playerObj \<Rightarrow> real" where
  "playerCollisionHeight pl = b_bottom (playerGetBounds pl) - b_top (playerGetBounds pl)"

text \<open>
  What the explosion loop writes into a particle: the player's position, the player's
  colour at full opacity, one and a half particle lifetimes, and the \<open>active\<close> flag.
\<close>

definition isExplosionParticle :: "playerObj \<Rightarrow> particleObj \<Rightarrow> bool" where
  "isExplosionParticle pl obj \<longleftrightarrow>
     pt_x obj = p_x pl \<and> pt_y obj = p_y pl \<and> pt_color obj = (0, 125, 65, 255)
     \<and> pt_life obj = PARTICLE_LIFETIME * 1.5 \<and> pt_active obj"

text \<open>
  The events the host delivers after start-up: a frame, a press (key, mouse or touch), a
  release, and a resize to a new window size.  \<open>run\<close> handles a sequence of events in
  order.
\<close>

datatype event = Frame | Press | Release | Resize real real

fun handleEvent :: "event \<Rightarrow> game \<Rightarrow> game" where
  "handleEvent Frame s = tick s"
| "handleEvent Press s = handleInputStart s"
| "handleEvent Release s = handleInputEnd s"
| "handleEvent (Resize windowWidth windowHeight) s = windowResized windowWidth windowHeight s"

definition run :: "event list \<Rightarrow> game \<Rightarrow> game" where
  "run evs s = fold handleEvent evs s"

section \<open>Example states\<close>

text \<open>
  A run in an 800 by 600 window (ground line at 480, player at (120, 450)), with nothing
  stored, every \<open>random()\<close> returning one half, after the first key press.
\<close>

definition blankParticle :: particleObj where
  "blankParticle =
     \<lparr>pt_x = 0, pt_y = 0, pt_vx = 0, pt_vy = 0, pt_size = 0, pt_color = (0, 0, 0, 0),
      pt_life = 0, pt_active = False\<rparr>"

definition demoRun :: game where
  "demoRun =
     handleInputStart (gameSetup 800 600 None False (\<lambda>_. 1 / 2) (\<lambda>_. blankParticle))"

text \<open>
  \<open>demoFly\<close>: the second random number is 0.2, so the next obstacle created is a flying
  one; the distance is 0, so it does not oscillate.  \<open>demoOsc\<close>: the distance is 1500 and
  the third random number is 0.1, so the next obstacle created is a flying one that
  oscillates, with phase offset a quarter of a full turn.
\<close>

definition demoFly :: game where
  "demoFly = demoRun\<lparr>rands := (\<lambda>n. if n = 1 then 0.2 else 1 / 2)\<rparr>"

definition demoOsc :: game where
  "demoOsc =
     demoRun\<lparr>distance := 1500,
              rands := (\<lambda>n. if n = 1 then 0.2 else if n = 2 then 0.1
                             else if n = 3 then 1 / 4 else 1 / 2)\<rparr>"

text \<open>
  Hand-made entities for the examples: a ground obstacle and a joist at a given position.
  The player's collision box in \<open>demoRun\<close> is [102, 138] by [423, 477].
\<close>

definition demoObstacle :: "real \<Rightarrow> real \<Rightarrow> obstacleObj" where
  "demoObstacle x y =
     \<lparr>o_x = x, o_y = y, o_initialY = y, o_type = CA, o_size = OBSTACLE_SIZE,
      o_width = OBSTACLE_SIZE, o_positionType = 0, o_rotation = 0, o_wobbleOffset = 0,
      o_canMoveVertically = False, o_verticalMoveOffset = 0\<rparr>"

definition demoJoist :: "real \<Rightarrow> real \<Rightarrow> bool \<Rightarrow> joistObj" where
  "demoJoist x y golden =
     \<lparr>j_x = x, j_y = y, j_baseY = y, j_width = JOIST_WIDTH, j_height = JOIST_HEIGHT,
      j_isGolden = golden, j_rotation = 0, j_hover = 0, j_animOffset = 0\<rparr>"

text \<open>
  \<open>demoHit\<close>: score 7, a distant obstacle followed by two obstacles that overlap the
  player, and a joist that overlaps the player.  \<open>demoPick\<close>: one distant obstacle, and
  three joists of which the first (common) and the third (golden) overlap the player.
\<close>

definition demoHit :: game where
  "demoHit =
     demoRun\<lparr>score := 7,
              obstacles := [demoObstacle 600 452, demoObstacle 120 452,
                            demoObstacle 130 452],
              joists := [demoJoist 120 450 False]\<rparr>"

definition demoPick :: game where
  "demoPick =
     demoRun\<lparr>obstacles := [demoObstacle 600 452],
              joists := [demoJoist 120 450 False, demoJoist 600 400 False,
                         demoJoist 130 440 True]\<rparr>"

text \<open>
  \<open>demoExpire\<close>: three particle objects exist.  Particles 0 and 1 are active, particle 0
  in its last frame (life 1) and particle 1 with 20 frames left; particle 2 is in the
  pool.
\<close>

definition demoParticle :: "real \<Rightarrow> bool \<Rightarrow> particleObj" where
  "demoParticle life act =
     \<lparr>pt_x = 120, pt_y = 450, pt_vx = 1, pt_vy = - 1, pt_size = 5,
      pt_color = (220, 220, 220, 255), pt_life = life, pt_active = act\<rparr>"

definition demoExpire :: game where
  "demoExpire =
     demoRun\<lparr>heap := (\<lambda>_. blankParticle)
                        (0 := demoParticle 1 True, 1 := demoParticle 20 True,
                         2 := demoParticle 0 False),
              nextRef := 3, activeParticles := [0, 1], particlePool := [2]\<rparr>"

section \<open>Verified properties\<close>

lemmas config_defs =
  PLAYER_SIZE_def OBSTACLE_SIZE_def JOIST_WIDTH_def JOIST_HEIGHT_def GRAVITY_def
  JUMP_FORCE_def VARIABLE_JUMP_DAMPING_def GROUND_OFFSET_def INITIAL_GAME_SPEED_def
  SPEED_LOG_BASE_def SPEED_LOG_SCALE_def SPAWN_RATE_LOG_BASE_def SPAWN_RATE_LOG_SCALE_def
  MIN_OBSTACLE_SPAWN_RATE_def MIN_JOIST_SPAWN_RATE_def BASE_OBSTACLE_SPAWN_RATE_def
  BASE_JOIST_SPAWN_RATE_def VERTICAL_MOVE_START_DISTANCE_def VERTICAL_MOVE_CHANCE_def
  VERTICAL_MOVE_RANGE_def VERTICAL_MOVE_SPEED_def PARTICLE_LIFETIME_def

text \<open>
  Claim C8.  The overlap test holds exactly when the four strict inequalities hold; hence
  it is symmetric in its two arguments, and two boxes that only share an edge (the right
  edge of one is the left edge of the other) do not overlap.
\<close>

theorem rectOverlap_spec:
  "(rectOverlap A B \<longleftrightarrow>
      b_left A < b_right B \<and> b_right A > b_left B \<and> b_top A < b_bottom B \<and> b_bottom A > b_top B)
   \<and> rectOverlap A B = rectOverlap B A
   \<and> (b_right A = b_left B \<longrightarrow> \<not> rectOverlap A B)"
  by (auto simp: rectOverlap_def)

theorem rectOverlap_spec_witness:
  "b_right \<lparr>b_left = 0, b_right = 10, b_top = 0, b_bottom = 10\<rparr>
     = b_left \<lparr>b_left = 10, b_right = 20, b_top = 0, b_bottom = 10\<rparr>
   \<and> \<not> rectOverlap \<lparr>b_left = 0, b_right = 10, b_top = 0, b_bottom = 10\<rparr>
                    \<lparr>b_left = 10, b_right = 20, b_top = 0, b_bottom = 10\<rparr>"
  using rectOverlap_spec [of "\<lparr>b_left = 0, b_right = 10, b_top = 0, b_bottom = 10\<rparr>"
                             "\<lparr>b_left = 10, b_right = 20, b_top = 0, b_bottom = 10\<rparr>"]
  by simp


subsection \<open>What each operation leaves unchanged\<close>

lemma spawnShape_refl: "spawnShape s s"
  by (simp add: spawnShape_def)

lemma spawnShape_trans: "spawnShape a b \<Longrightarrow> spawnShape b c \<Longrightarrow> spawnShape a c"
  by (simp add: spawnShape_def)

lemma spawnShape_upd:
  "spawnShape s (s'\<lparr>rix := k\<rparr>) = spawnShape s s'"
  "spawnShape s (s'\<lparr>obstacles := obs\<rparr>) = spawnShape s s'"
  "spawnShape s (s'\<lparr>joists := js\<rparr>) = spawnShape s s'"
  by (simp_all add: spawnShape_def)

lemma random0_shape: "spawnShape s (snd (random0 s))"
  by (simp add: random0_def spawnShape_upd spawnShape_refl)

lemma createObstacle_shape: "spawnShape s (snd (createObstacle s))"
  by (simp add: createObstacle_def random0_def random1_def Let_def split_def
      spawnShape_upd spawnShape_refl)

lemma createJoist_shape: "spawnShape s (snd (createJoist g s))"
  by (simp add: createJoist_def random0_def random1_def Let_def split_def
      spawnShape_upd spawnShape_refl)

lemma spawnObstacle_shape: "spawnShape s (spawnObstacle s)"
  by (simp add: spawnObstacle_def split_def Let_def spawnShape_upd spawnShape_refl
      createObstacle_shape)

lemma spawnJoist_shape: "spawnShape s (spawnJoist s)"
proof -
  have "spawnShape s (snd (createJoist False (snd (random0 s))))"
    by (rule spawnShape_trans [OF random0_shape createJoist_shape])
  then show ?thesis
    by (simp add: spawnJoist_def split_def Let_def spawnShape_upd spawnShape_refl random0_shape)
qed

lemma spawnGoldenJoist_shape: "spawnShape s (spawnGoldenJoist s)"
proof -
  have "spawnShape s (snd (createJoist True (snd (random0 s))))"
    by (rule spawnShape_trans [OF random0_shape createJoist_shape])
  then show ?thesis
    by (simp add: spawnGoldenJoist_def split_def Let_def spawnShape_upd spawnShape_refl
        random0_shape)
qed

lemma spawnElements_shape: "spawnShape s (spawnElements s)"
  unfolding spawnElements_def
  by (blast intro: spawnShape_trans spawnObstacle_shape spawnJoist_shape spawnGoldenJoist_shape)

lemmas spawnElements_frame = spawnElements_shape [unfolded spawnShape_def]

lemma particleShape_refl: "particleShape s s"
  by (simp add: particleShape_def)

lemma particleShape_trans: "particleShape a b \<Longrightarrow> particleShape b c \<Longrightarrow> particleShape a c"
  by (simp add: particleShape_def)

lemma particleShape_upd:
  "particleShape s (s'\<lparr>rix := k\<rparr>) = particleShape s s'"
  "particleShape s (s'\<lparr>heap := h\<rparr>) = particleShape s s'"
  "particleShape s (s'\<lparr>nextRef := n\<rparr>) = particleShape s s'"
  "particleShape s (s'\<lparr>activeParticles := a\<rparr>) = particleShape s s'"
  "particleShape s (s'\<lparr>particlePool := p\<rparr>) = particleShape s s'"
  by (simp_all add: particleShape_def)


lemma collectParticle_shape: "particleShape s (collectParticle x y c s)"
  by (simp add: collectParticle_def acquire_def random2_def Let_def split_def
      particleShape_upd particleShape_refl)

lemma collectLoop_shape: "particleShape s (collectLoop n x y c s)"
proof (induction n arbitrary: s)
  case 0
  show ?case by (simp add: particleShape_refl)
next
  case (Suc n)
  show ?case
    using particleShape_trans [OF collectParticle_shape Suc.IH] by simp
qed

lemma explosionParticle_shape: "particleShape s (explosionParticle s)"
  by (simp add: explosionParticle_def acquire_def random2_def Let_def split_def
      particleShape_upd particleShape_refl)

lemma explosionLoop_shape: "particleShape s (explosionLoop n s)"
proof (induction n arbitrary: s)
  case 0
  show ?case by (simp add: particleShape_refl)
next
  case (Suc n)
  show ?case
    using particleShape_trans [OF explosionParticle_shape Suc.IH] by simp
qed


lemmas collectLoop_frame = collectLoop_shape [unfolded particleShape_def]

lemmas explosionLoop_frame = explosionLoop_shape [unfolded particleShape_def]

subsection \<open>Progression curves\<close>

lemma log10_1012_bounds:
  "0 < log 10 (1.012::real) \<and> 20 * log 10 (1.012::real) < 1"
proof -
  have p: "(1.012::real) ^ 20 < 10" by (simp add: power_def)
  have "log 10 ((1.012::real) ^ 20) < log 10 10"
    using p by (subst log_less_cancel_iff) auto
  then have "20 * log 10 (1.012::real) < 1"
    by (simp add: log_nat_power)
  moreover have "0 < log 10 (1.012::real)" by simp
  ultimately show ?thesis by simp
qed

text \<open>
  Claim C6.  After every frame update (and after a reset) the game speed is the
  specification's speed function of the distance travelled,
  \<open>baseSpeed + logBase * log10(1 + distance * logScale)\<close>; that function is \<open>baseSpeed\<close>
  at distance 0 and is non-decreasing on distances from 0 upwards.
\<close>

theorem speed_curve:
  "gameSpeed (updateGame s) = spec_speed (distance (updateGame s))
   \<and> gameSpeed (resetGame s) = spec_speed (distance (resetGame s))
   \<and> spec_speed 0 = INITIAL_GAME_SPEED
   \<and> (0 \<le> d1 \<and> d1 \<le> d2 \<longrightarrow> spec_speed d1 \<le> spec_speed d2)"
proof -
  have a: "gameSpeed (updateGame s) = spec_speed (distance (updateGame s))"
    by (simp add: updateGame_def Let_def playerHandleJumpRelease_def spec_speed_def)
  have b: "gameSpeed (resetGame s) = spec_speed (distance (resetGame s))"
    by (simp add: resetGame_def Let_def spec_speed_def)
  have c: "spec_speed 0 = INITIAL_GAME_SPEED"
    by (simp add: spec_speed_def)
  have d: "0 \<le> d1 \<and> d1 \<le> d2 \<longrightarrow> spec_speed d1 \<le> spec_speed d2"
    unfolding spec_speed_def SPEED_LOG_BASE_def SPEED_LOG_SCALE_def
    by (simp add: log_le_cancel_iff mult_nonneg_nonneg add_pos_nonneg)
  from a b c d show ?thesis by blast
qed

theorem speed_curve_witness:
  "(0::real) \<le> 0 \<and> (0::real) \<le> 100 \<and> spec_speed 0 \<le> spec_speed 100 \<and> spec_speed 0 = 5"
  using speed_curve [of demoRun 0 100] by (simp add: INITIAL_GAME_SPEED_def)

text \<open>
  Claim C7, as stated, fails: the script takes the floor of the specification's formula.
  At distance 1 the formula gives a value strictly between 119 and 120, the script's
  obstacle interval is 119.
\<close>

theorem spawnInterval_counterexample:
  "real_of_int (obstacleSpawnRate 1) = 119 \<and>
   119 < spec_spawnInterval 1 BASE_OBSTACLE_SPAWN_RATE MIN_OBSTACLE_SPAWN_RATE \<and>
   real_of_int (obstacleSpawnRate 1)
     \<noteq> spec_spawnInterval 1 BASE_OBSTACLE_SPAWN_RATE MIN_OBSTACLE_SPAWN_RATE"
proof -
  have v: "spec_spawnInterval 1 BASE_OBSTACLE_SPAWN_RATE MIN_OBSTACLE_SPAWN_RATE
             = 120 - 20 * log 10 (1.012::real)"
    using log10_1012_bounds
    by (simp add: spec_spawnInterval_def config_defs max_def)
  have r: "obstacleSpawnRate 1 = \<lfloor>120 - 20 * log 10 (1.012::real)\<rfloor>"
    using log10_1012_bounds
    by (simp add: obstacleSpawnRate_def rateReduction_def config_defs max_def)
  have "\<lfloor>120 - 20 * log 10 (1.012::real)\<rfloor> = 119"
    using log10_1012_bounds by (simp add: floor_eq_iff)
  with r have r': "obstacleSpawnRate 1 = 119" by simp
  show ?thesis using v r' log10_1012_bounds by simp
qed

text \<open>
  Claim C7, amended.  The obstacle and joist spawn intervals are the floor of the
  specification's formula \<open>max(min, base - spawnLogBase * log10(1 + d * spawnLogScale))\<close>;
  for every distance \<open>d \<ge> 0\<close> each is at least its minimum interval, and at distance 0
  each equals its base interval.
\<close>

theorem spawnInterval_floor:
  "obstacleSpawnRate d
     = \<lfloor>spec_spawnInterval d BASE_OBSTACLE_SPAWN_RATE MIN_OBSTACLE_SPAWN_RATE\<rfloor>
   \<and> joistSpawnRate d = \<lfloor>spec_spawnInterval d BASE_JOIST_SPAWN_RATE MIN_JOIST_SPAWN_RATE\<rfloor>
   \<and> (0 \<le> d \<longrightarrow> MIN_OBSTACLE_SPAWN_RATE \<le> real_of_int (obstacleSpawnRate d)
                \<and> MIN_JOIST_SPAWN_RATE \<le> real_of_int (joistSpawnRate d))
   \<and> real_of_int (obstacleSpawnRate 0) = BASE_OBSTACLE_SPAWN_RATE
   \<and> real_of_int (joistSpawnRate 0) = BASE_JOIST_SPAWN_RATE"
proof -
  have "\<lfloor>MIN_OBSTACLE_SPAWN_RATE\<rfloor> \<le> obstacleSpawnRate d"
    unfolding obstacleSpawnRate_def by (rule floor_mono) simp
  then have a: "MIN_OBSTACLE_SPAWN_RATE \<le> real_of_int (obstacleSpawnRate d)"
    by (simp add: MIN_OBSTACLE_SPAWN_RATE_def)
  have "\<lfloor>MIN_JOIST_SPAWN_RATE\<rfloor> \<le> joistSpawnRate d"
    unfolding joistSpawnRate_def by (rule floor_mono) simp
  then have b: "MIN_JOIST_SPAWN_RATE \<le> real_of_int (joistSpawnRate d)"
    by (simp add: MIN_JOIST_SPAWN_RATE_def)
  have c: "real_of_int (obstacleSpawnRate 0) = BASE_OBSTACLE_SPAWN_RATE"
    "real_of_int (joistSpawnRate 0) = BASE_JOIST_SPAWN_RATE"
    by (simp_all add: obstacleSpawnRate_def joistSpawnRate_def rateReduction_def config_defs)
  show ?thesis using a b c
    by (simp add: obstacleSpawnRate_def joistSpawnRate_def rateReduction_def
        spec_spawnInterval_def)
qed

theorem spawnInterval_floor_witness:
  "(0::real) \<le> 1 \<and> 40 \<le> real_of_int (obstacleSpawnRate 1)
   \<and> 60 \<le> real_of_int (joistSpawnRate 1)"
proof -
  from spawnInterval_floor [of 1]
  have "(0::real) \<le> 1 \<longrightarrow> MIN_OBSTACLE_SPAWN_RATE \<le> real_of_int (obstacleSpawnRate 1)
                \<and> MIN_JOIST_SPAWN_RATE \<le> real_of_int (joistSpawnRate 1)"
    by blast
  then show ?thesis
    by (simp add: MIN_OBSTACLE_SPAWN_RATE_def MIN_JOIST_SPAWN_RATE_def)
qed

subsection \<open>Reset\<close>

text \<open>
  Claim C10.  A reset leaves the in-memory high score, the particle pool and the particle
  objects as they were: the state after it is the state before it with only the score,
  distance, speed, obstacle, joist and active-particle arrays, the player, the game-over
  and jump flags and the frame counter overwritten.
\<close>

theorem resetGame_frame:
  "highScore (resetGame s) = highScore s
   \<and> particlePool (resetGame s) = particlePool s
   \<and> heap (resetGame s) = heap s
   \<and> resetGame s =
       s\<lparr>score := 0, distance := 0, gameSpeed := INITIAL_GAME_SPEED, obstacles := [],
         joists := [], activeParticles := [], player := createPlayer s, gameOver := False,
         isJumping := False, frameCount := 0\<rparr>"
  by (simp add: resetGame_def Let_def createPlayer_def)

subsection \<open>Variable jump height\<close>




lemma demoRun_fields:
  "player demoRun = \<lparr>p_x = 120, p_y = 450, p_vy = 0, p_size = 60, p_onGround = True,
                      p_jumpAnimation = 0\<rparr>"
  "groundY demoRun = 480" "gameStarted demoRun" "\<not> gameOver demoRun" "\<not> isJumping demoRun"
  by (simp_all add: demoRun_def gameSetup_def handleInputStart_def resetGame_def
      createPlayer_def config_defs Let_def)






subsection \<open>Flying obstacles\<close>

lemma sin_28pi_half: "sin (28 * pi + pi / 2) = 1"
proof -
  have "sin (28 * pi + pi / 2) = sin (28 * pi) * cos (pi / 2) + cos (28 * pi) * sin (pi / 2)"
    by (rule sin_add)
  then show ?thesis by simp
qed

lemma obstacleUpdate_keeps:
  "o_initialY (obstacleUpdate f ob) = o_initialY ob \<and> o_size (obstacleUpdate f ob) = o_size ob
   \<and> o_positionType (obstacleUpdate f ob) = o_positionType ob
   \<and> o_canMoveVertically (obstacleUpdate f ob) = o_canMoveVertically ob
   \<and> o_wobbleOffset (obstacleUpdate f ob) = o_wobbleOffset ob
   \<and> o_verticalMoveOffset (obstacleUpdate f ob) = o_verticalMoveOffset ob
   \<and> o_width (obstacleUpdate f ob) = o_width ob \<and> o_type (obstacleUpdate f ob) = o_type ob"
  by (simp add: obstacleUpdate_def Let_def)

lemma fold_obstacleUpdate_keeps:
  "o_initialY (fold obstacleUpdate fs ob) = o_initialY ob
   \<and> o_size (fold obstacleUpdate fs ob) = o_size ob
   \<and> o_positionType (fold obstacleUpdate fs ob) = o_positionType ob
   \<and> o_canMoveVertically (fold obstacleUpdate fs ob) = o_canMoveVertically ob"
  by (induction fs arbitrary: ob) (simp_all add: obstacleUpdate_keeps)

lemma createObstacle_fields:
  "o_size (fst (createObstacle s)) = OBSTACLE_SIZE"
  "o_y (fst (createObstacle s)) = o_initialY (fst (createObstacle s))"
  "o_positionType (fst (createObstacle s)) = 1 \<Longrightarrow>
     o_initialY (fst (createObstacle s))
       = min (groundY s - p_size (player s) * 1.1 - OBSTACLE_SIZE / 2)
             (groundY s - OBSTACLE_SIZE * 1.5)"
  by (simp_all add: createObstacle_def random0_def random1_def Let_def split_def split: if_splits)

lemma sin_scaled_le:
  assumes "0 \<le> (a::real)"
  shows "sin x * a \<le> a"
  using assms mult_right_mono [of "sin x" 1 a] by simp

lemma hover_clearance:
  assumes "o_positionType ob = 1" "\<not> o_canMoveVertically ob"
    and "o_size ob = OBSTACLE_SIZE"
    and "o_initialY ob = groundY f - 93.5"
    and "INITIAL_GAME_SPEED \<le> gameSpeed f" "gameSpeed f \<le> 147.5"
  shows "54 \<le> groundY f - b_bottom (obstacleGetBounds (obstacleUpdate f ob))"
proof -
  define hA where "hA = 0.5 + (gameSpeed f - INITIAL_GAME_SPEED) * 0.1"
  define x where "x = real_of_int (frameCount f)
                        * (0.1 + (gameSpeed f - INITIAL_GAME_SPEED) * 0.008)
                      + o_wobbleOffset ob + pi / 2"
  have hA0: "0 \<le> hA" using assms(5) by (simp add: hA_def)
  have hA1: "hA \<le> 14.75" using assms(6) by (simp add: hA_def INITIAL_GAME_SPEED_def)
  have "sin x * hA \<le> hA" using hA0 by (rule sin_scaled_le)
  with hA1 have b: "sin x * hA \<le> 14.75" by simp
  have "o_y (obstacleUpdate f ob) = o_initialY ob + sin x * hA"
    using assms(1,2) by (simp add: obstacleUpdate_def Let_def hA_def x_def)
  then have "b_bottom (obstacleGetBounds (obstacleUpdate f ob))
      = groundY f - 93.5 + sin x * hA + 24.75"
    using assms(3,4) by (simp add: obstacleGetBounds_def obstacleUpdate_keeps OBSTACLE_SIZE_def)
  with b show ?thesis by simp
qed

lemma oscillate_clearance:
  assumes "o_canMoveVertically ob" "o_size ob = OBSTACLE_SIZE"
  shows "2.75 \<le> groundY f - b_bottom (obstacleGetBounds (obstacleUpdate f ob))"
proof -
  have "o_y (obstacleUpdate f ob) \<le> groundY f - o_size ob / 2"
    using assms(1) by (simp add: obstacleUpdate_def Let_def)
  then show ?thesis
    using assms(2) by (simp add: obstacleGetBounds_def obstacleUpdate_keeps OBSTACLE_SIZE_def)
qed


lemma demoRun_env:
  "score demoRun = 0" "obstacles demoRun = []" "joists demoRun = []" "highScore demoRun = 0"
  "activeParticles demoRun = []" "particlePool demoRun = []" "nextRef demoRun = 0"
  "localStorage demoRun = None" "\<not> storageThrows demoRun"
  "rix demoRun = 0" "distance demoRun = 0" "width demoRun = 800"
  by (simp_all add: demoRun_def gameSetup_def handleInputStart_def resetGame_def Let_def)

lemma demoOsc_fields:
  "groundY demoOsc = 480" "rix demoOsc = 0" "distance demoOsc = 1500"
  "player demoOsc = \<lparr>p_x = 120, p_y = 450, p_vy = 0, p_size = 60, p_onGround = True,
                      p_jumpAnimation = 0\<rparr>"
  "rands demoOsc = (\<lambda>n. if n = 1 then 0.2 else if n = 2 then 0.1
                             else if n = 3 then 1 / 4 else 1 / 2)"
  by (simp_all add: demoOsc_def demoRun_fields demoRun_env)

lemma demoOsc_obstacle:
  "o_positionType (fst (createObstacle demoOsc)) = 1"
  "o_canMoveVertically (fst (createObstacle demoOsc))"
  "o_verticalMoveOffset (fst (createObstacle demoOsc)) = 1 / 4 * (2 * pi)"
  "o_initialY (fst (createObstacle demoOsc)) = 386.5"
  "o_size (fst (createObstacle demoOsc)) = 55"
  by (simp_all add: createObstacle_def random0_def random1_def Let_def split_def
      demoOsc_fields config_defs)

lemma obstacleUpdate_oscillating:
  "o_canMoveVertically ob \<Longrightarrow>
     o_y (obstacleUpdate f ob) =
       min (max (o_initialY ob
                 + sin (real_of_int (frameCount f)
                          * (VERTICAL_MOVE_SPEED + (gameSpeed f - INITIAL_GAME_SPEED) * 0.001)
                        + o_verticalMoveOffset ob) * VERTICAL_MOVE_RANGE / 2)
                (o_size ob / 2))
           (groundY f - o_size ob / 2)"
  by (simp add: obstacleUpdate_def Let_def)

text \<open>
  Claim C3, as stated, fails for oscillating obstacles.  In \<open>demoOsc\<close> the obstacle
  created is a flying one with vertical oscillation.  Updated in frame 2000 at game speed
  \<open>14 pi - 35\<close> (about 8.98) the sine of its oscillation is 1, its centre is 54 below its
  initial height, and the gap between the bottom of its collision box and the ground
  line is 14.75, less than the player's collision height 54.
\<close>

theorem flying_clearance_counterexample:
  "o_positionType (fst (createObstacle demoOsc)) = 1
   \<and> o_canMoveVertically (fst (createObstacle demoOsc))
   \<and> clearance demoOsc
        (obstacleUpdate (demoOsc\<lparr>gameSpeed := 14 * pi - 35, frameCount := 2000\<rparr>)
           (fst (createObstacle demoOsc))) = 14.75
   \<and> playerCollisionHeight (player demoOsc) = 54"
proof -
  define f where "f = demoOsc\<lparr>gameSpeed := 14 * pi - 35, frameCount := 2000\<rparr>"
  define ob where "ob = fst (createObstacle demoOsc)"
  have f: "gameSpeed f = 14 * pi - 35" "frameCount f = 2000" "groundY f = 480"
    by (simp_all add: f_def demoOsc_fields)
  have ob: "o_positionType ob = 1" "o_canMoveVertically ob"
    "o_verticalMoveOffset ob = 1 / 4 * (2 * pi)" "o_initialY ob = 386.5" "o_size ob = 55"
    by (simp_all add: ob_def demoOsc_obstacle)
  have "real_of_int (frameCount f)
          * (VERTICAL_MOVE_SPEED + (gameSpeed f - INITIAL_GAME_SPEED) * 0.001)
        + o_verticalMoveOffset ob = 28 * pi + pi / 2"
    by (simp add: f ob config_defs field_simps)
  then have s1: "sin (real_of_int (frameCount f)
          * (VERTICAL_MOVE_SPEED + (gameSpeed f - INITIAL_GAME_SPEED) * 0.001)
        + o_verticalMoveOffset ob) = 1"
    by (simp only: sin_28pi_half)
  have y: "o_y (obstacleUpdate f ob) = 440.5"
    by (simp only: obstacleUpdate_oscillating [OF ob(2)] s1)
       (simp add: ob f(3) config_defs)
  have c: "clearance demoOsc (obstacleUpdate f ob) = 14.75"
    by (simp add: clearance_def obstacleGetBounds_def y obstacleUpdate_keeps ob demoOsc_fields)
  have h: "playerCollisionHeight (player demoOsc) = 54"
    by (simp add: playerCollisionHeight_def playerGetBounds_def Let_def demoOsc_fields)
  show ?thesis using c h ob(1,2) unfolding f_def ob_def by simp
qed


text \<open>
  Claim C3, amended.  Take a flying obstacle as \<open>createObstacle\<close> makes it for a player of
  the standard size, and update it in any sequence of frames with the same ground line
  whose game speed lies between the initial speed and 147.5.  If it does not oscillate,
  the gap between the bottom of its collision box and the ground line is at every frame
  at least the player's collision height.  If it oscillates, the bottom of its collision
  box stays above the ground line.
\<close>

theorem flying_clearance:
  "p_size (player s) = PLAYER_SIZE \<and> o_positionType (fst (createObstacle s)) = 1
   \<and> list_all (\<lambda>f. groundY f = groundY s \<and> INITIAL_GAME_SPEED \<le> gameSpeed f
                     \<and> gameSpeed f \<le> 147.5) fs
   \<longrightarrow> (\<not> o_canMoveVertically (fst (createObstacle s)) \<longrightarrow>
          playerCollisionHeight (player s)
            \<le> clearance s (fold obstacleUpdate fs (fst (createObstacle s))))
       \<and> (o_canMoveVertically (fst (createObstacle s)) \<longrightarrow>
          0 < clearance s (fold obstacleUpdate fs (fst (createObstacle s))))"
proof (intro impI, elim conjE)
  define ob where "ob = fst (createObstacle s)"
  assume ps: "p_size (player s) = PLAYER_SIZE"
    and pt: "o_positionType (fst (createObstacle s)) = 1"
    and fr: "list_all (\<lambda>f. groundY f = groundY s \<and> INITIAL_GAME_SPEED \<le> gameSpeed f
                     \<and> gameSpeed f \<le> 147.5) fs"
  have sz: "o_size ob = OBSTACLE_SIZE" and yy: "o_y ob = o_initialY ob"
    by (simp_all add: ob_def createObstacle_fields)
  have iy: "o_initialY ob = groundY s - 93.5"
    using pt ps by (simp add: ob_def createObstacle_fields config_defs)
  have h: "playerCollisionHeight (player s) = 54"
    using ps by (simp add: playerCollisionHeight_def playerGetBounds_def Let_def PLAYER_SIZE_def)
  have "(\<not> o_canMoveVertically ob \<longrightarrow> 54 \<le> clearance s (fold obstacleUpdate fs ob))
        \<and> (o_canMoveVertically ob \<longrightarrow> 0 < clearance s (fold obstacleUpdate fs ob))"
  proof (cases fs rule: rev_cases)
    case Nil
    then show ?thesis
      by (simp add: clearance_def obstacleGetBounds_def yy iy sz OBSTACLE_SIZE_def)
  next
    case (snoc fs' f)
    define ob' where "ob' = fold obstacleUpdate fs' ob"
    have keep: "o_initialY ob' = o_initialY ob" "o_size ob' = o_size ob"
      "o_positionType ob' = o_positionType ob"
      "o_canMoveVertically ob' = o_canMoveVertically ob"
      by (simp_all add: ob'_def fold_obstacleUpdate_keeps)
    have f: "groundY f = groundY s" "INITIAL_GAME_SPEED \<le> gameSpeed f" "gameSpeed f \<le> 147.5"
      using fr snoc by simp_all
    have fold: "fold obstacleUpdate fs ob = obstacleUpdate f ob'"
      by (simp add: snoc ob'_def)
    have a: "\<not> o_canMoveVertically ob \<longrightarrow> 54 \<le> clearance s (obstacleUpdate f ob')"
    proof
      assume nv: "\<not> o_canMoveVertically ob"
      have "54 \<le> groundY f - b_bottom (obstacleGetBounds (obstacleUpdate f ob'))"
        by (rule hover_clearance) (use nv pt keep sz iy f in \<open>simp_all add: ob_def\<close>)
      then show "54 \<le> clearance s (obstacleUpdate f ob')"
        by (simp add: clearance_def f(1))
    qed
    have b: "o_canMoveVertically ob \<longrightarrow> 0 < clearance s (obstacleUpdate f ob')"
    proof
      assume v: "o_canMoveVertically ob"
      have "2.75 \<le> groundY f - b_bottom (obstacleGetBounds (obstacleUpdate f ob'))"
        by (rule oscillate_clearance) (use v keep sz in simp_all)
      then show "0 < clearance s (obstacleUpdate f ob')"
        by (simp add: clearance_def f(1))
    qed
    from a b show ?thesis by (simp add: fold)
  qed
  then show "(\<not> o_canMoveVertically (fst (createObstacle s)) \<longrightarrow>
          playerCollisionHeight (player s)
            \<le> clearance s (fold obstacleUpdate fs (fst (createObstacle s))))
       \<and> (o_canMoveVertically (fst (createObstacle s)) \<longrightarrow>
          0 < clearance s (fold obstacleUpdate fs (fst (createObstacle s))))"
    by (simp add: h ob_def)
qed

lemma demoFly_fields:
  "groundY demoFly = 480" "rix demoFly = 0" "distance demoFly = 0" "gameSpeed demoFly = 5"
  "player demoFly = \<lparr>p_x = 120, p_y = 450, p_vy = 0, p_size = 60, p_onGround = True,
                      p_jumpAnimation = 0\<rparr>"
  "rands demoFly = (\<lambda>n. if n = 1 then 0.2 else 1 / 2)"
  by (simp_all add: demoFly_def demoRun_fields demoRun_env demoRun_def gameSetup_def
      handleInputStart_def resetGame_def createPlayer_def Let_def config_defs)

lemma demoFly_obstacle:
  "o_positionType (fst (createObstacle demoFly)) = 1"
  "\<not> o_canMoveVertically (fst (createObstacle demoFly))"
  by (simp_all add: createObstacle_def random0_def random1_def Let_def split_def
      demoFly_fields config_defs)

theorem flying_clearance_witness:
  "(p_size (player demoFly) = PLAYER_SIZE \<and> o_positionType (fst (createObstacle demoFly)) = 1
    \<and> list_all (\<lambda>f. groundY f = groundY demoFly \<and> INITIAL_GAME_SPEED \<le> gameSpeed f
                     \<and> gameSpeed f \<le> 147.5)
         [demoFly\<lparr>frameCount := 1\<rparr>, demoFly\<lparr>frameCount := 2\<rparr>])
   \<and> \<not> o_canMoveVertically (fst (createObstacle demoFly))
   \<and> 54 \<le> clearance demoFly
             (fold obstacleUpdate [demoFly\<lparr>frameCount := 1\<rparr>, demoFly\<lparr>frameCount := 2\<rparr>]
                (fst (createObstacle demoFly)))
   \<and> (p_size (player demoOsc) = PLAYER_SIZE \<and> o_positionType (fst (createObstacle demoOsc)) = 1
    \<and> list_all (\<lambda>f. groundY f = groundY demoOsc \<and> INITIAL_GAME_SPEED \<le> gameSpeed f
                     \<and> gameSpeed f \<le> 147.5)
         [demoOsc\<lparr>gameSpeed := 9, frameCount := 2000\<rparr>])
   \<and> o_canMoveVertically (fst (createObstacle demoOsc))
   \<and> 0 < clearance demoOsc
             (fold obstacleUpdate [demoOsc\<lparr>gameSpeed := 9, frameCount := 2000\<rparr>]
                (fst (createObstacle demoOsc)))"
proof -
  have h1: "p_size (player demoFly) = PLAYER_SIZE \<and> o_positionType (fst (createObstacle demoFly)) = 1
    \<and> list_all (\<lambda>f. groundY f = groundY demoFly \<and> INITIAL_GAME_SPEED \<le> gameSpeed f
                     \<and> gameSpeed f \<le> 147.5)
         [demoFly\<lparr>frameCount := 1\<rparr>, demoFly\<lparr>frameCount := 2\<rparr>]"
    by (simp add: demoFly_fields demoFly_obstacle config_defs)
  have h2: "p_size (player demoOsc) = PLAYER_SIZE \<and> o_positionType (fst (createObstacle demoOsc)) = 1
    \<and> list_all (\<lambda>f. groundY f = groundY demoOsc \<and> INITIAL_GAME_SPEED \<le> gameSpeed f
                     \<and> gameSpeed f \<le> 147.5)
         [demoOsc\<lparr>gameSpeed := 9, frameCount := 2000\<rparr>]"
    by (simp add: demoOsc_fields demoOsc_obstacle config_defs)
  have p: "playerCollisionHeight (player demoFly) = 54"
    by (simp add: playerCollisionHeight_def playerGetBounds_def Let_def demoFly_fields)
  from flying_clearance [of demoFly "[demoFly\<lparr>frameCount := 1\<rparr>, demoFly\<lparr>frameCount := 2\<rparr>]"]
    h1 demoFly_obstacle(2)
  have "playerCollisionHeight (player demoFly) \<le> clearance demoFly
             (fold obstacleUpdate [demoFly\<lparr>frameCount := 1\<rparr>, demoFly\<lparr>frameCount := 2\<rparr>]
                (fst (createObstacle demoFly)))"
    by blast
  then have c1: "54 \<le> clearance demoFly
             (fold obstacleUpdate [demoFly\<lparr>frameCount := 1\<rparr>, demoFly\<lparr>frameCount := 2\<rparr>]
                (fst (createObstacle demoFly)))"
    by (simp only: p)
  from flying_clearance [of demoOsc "[demoOsc\<lparr>gameSpeed := 9, frameCount := 2000\<rparr>]"]
    h2 demoOsc_obstacle(2)
  have c2: "0 < clearance demoOsc
             (fold obstacleUpdate [demoOsc\<lparr>gameSpeed := 9, frameCount := 2000\<rparr>]
                (fst (createObstacle demoOsc)))"
    by blast
  from h1 h2 c1 c2 demoFly_obstacle(2) demoOsc_obstacle(2) show ?thesis by blast
qed

subsection \<open>Removal by swap and pop\<close>

lemma swapPop_length: "i < length xs \<Longrightarrow> length (swapPop i xs) = length xs - 1"
  by (simp add: swapPop_def)

lemma swapPop_snoc:
  "i \<le> length ys \<Longrightarrow> swapPop i (ys @ [l]) = (if i = length ys then ys else ys[i := l])"
  by (simp add: swapPop_def list_update_append)

lemma swapPop_mset: "i < length xs \<Longrightarrow> mset (swapPop i xs) + {#xs ! i#} = mset xs"
proof (cases xs rule: rev_cases)
  case Nil
  assume "i < length xs"
  with Nil show ?thesis by simp
next
  case (snoc ys l)
  assume "i < length xs"
  with snoc have i: "i \<le> length ys" by simp
  show ?thesis
  proof (cases "i = length ys")
    case True
    with snoc i show ?thesis by (simp add: swapPop_snoc)
  next
    case False
    with i have "i < length ys" by simp
    with snoc i show ?thesis
      by (simp add: swapPop_snoc nth_append mset_update)
  qed
qed

lemma swapPop_take: "i < length xs \<Longrightarrow> take i (swapPop i xs) = take i xs"
proof (cases xs rule: rev_cases)
  case Nil
  assume "i < length xs"
  with Nil show ?thesis by simp
next
  case (snoc ys l)
  assume "i < length xs"
  with snoc have i: "i \<le> length ys" by simp
  with snoc show ?thesis by (simp add: swapPop_snoc)
qed

lemma mset_split_at:
  assumes "i < length xs"
  shows "mset xs = mset (take i xs) + {#xs ! i#} + mset (drop (Suc i) xs)"
proof -
  have "mset xs = mset (take i xs @ xs ! i # drop (Suc i) xs)"
    using id_take_nth_drop [OF assms] by simp
  then show ?thesis by simp
qed

lemma swapPop_drop:
  assumes "i < length xs"
  shows "mset (drop i (swapPop i xs)) = mset (drop (Suc i) xs)"
proof -
  have "mset (swapPop i xs) = mset (take i (swapPop i xs)) + mset (drop i (swapPop i xs))"
    by (simp flip: mset_append)
  then have a: "mset (take i xs) + mset (drop i (swapPop i xs)) + {#xs ! i#} = mset xs"
    using swapPop_mset [OF assms] by (simp add: swapPop_take [OF assms])
  have b: "mset xs = mset (take i xs) + {#xs ! i#} + mset (drop (Suc i) xs)"
    by (rule mset_split_at [OF assms])
  from a b show ?thesis by simp
qed

lemma swapPop_distinct:
  assumes "i < length xs" "distinct xs"
  shows "distinct (swapPop i xs) \<and> set (swapPop i xs) = set xs - {xs ! i}"
proof -
  have m: "mset (swapPop i xs @ [xs ! i]) = mset xs"
    using swapPop_mset [OF assms(1)] by simp
  have d: "distinct (swapPop i xs @ [xs ! i])"
    using mset_eq_imp_distinct_iff [OF m] assms(2) by simp
  have s: "set (swapPop i xs @ [xs ! i]) = set xs"
    by (rule mset_eq_setD [OF m])
  from d have n: "xs ! i \<notin> set (swapPop i xs)" by simp
  from s have "insert (xs ! i) (set (swapPop i xs)) = set xs" by simp
  with n have "set (swapPop i xs) = set xs - {xs ! i}" by blast
  with d show ?thesis by simp
qed

subsection \<open>The collision pass\<close>

lemma createCollectParticles_frame:
  "joists (createCollectParticles x y c s) = joists s"
  "score (createCollectParticles x y c s) = score s"
  "player (createCollectParticles x y c s) = player s"
  "obstacles (createCollectParticles x y c s) = obstacles s"
  "gameOver (createCollectParticles x y c s) = gameOver s"
  "highScore (createCollectParticles x y c s) = highScore s"
  "localStorage (createCollectParticles x y c s) = localStorage s"
  by (simp_all add: createCollectParticles_def collectLoop_frame)

lemma joistPass_spec:
  "i \<le> length (joists s) \<Longrightarrow>
     mset (joists (joistPass pb i s))
       = mset (filter (\<lambda>j. \<not> rectOverlap pb (joistGetBounds j)) (take i (joists s)))
         + mset (drop i (joists s))
     \<and> score (joistPass pb i s)
       = score s + sum_list (map (\<lambda>j. if j_isGolden j then 5 else 1)
                     (filter (\<lambda>j. rectOverlap pb (joistGetBounds j)) (take i (joists s))))
     \<and> gameOver (joistPass pb i s) = gameOver s
     \<and> highScore (joistPass pb i s) = highScore s
     \<and> localStorage (joistPass pb i s) = localStorage s
     \<and> player (joistPass pb i s) = player s
     \<and> obstacles (joistPass pb i s) = obstacles s"
proof (induction i arbitrary: s)
  case 0
  show ?case by simp
next
  case (Suc i)
  then have i: "i < length (joists s)" by simp
  have tk: "take (Suc i) (joists s) = take i (joists s) @ [joists s ! i]"
    by (rule take_Suc_conv_app_nth [OF i])
  show ?case
  proof (cases "rectOverlap pb (joistGetBounds (joists s ! i))")
    case False
    have dr: "drop i (joists s) = joists s ! i # drop (Suc i) (joists s)"
      using i by (simp add: Cons_nth_drop_Suc)
    have "i \<le> length (joists s)" using i by simp
    from Suc.IH [OF this] False show ?thesis
      by (simp add: tk dr)
  next
    case True
    define v :: int where "v = (if j_isGolden (joists s ! i) then 5 else 1)"
    define s1 where "s1 =
      (if j_isGolden (joists s ! i) then
         createCollectParticles (j_x (joists s ! i)) (j_y (joists s ! i)) joistGold
           (s\<lparr>score := score s + 5\<rparr>)
       else
         createCollectParticles (j_x (joists s ! i)) (j_y (joists s ! i)) joistHighlight
           (s\<lparr>score := score s + 1\<rparr>))"
    define s2 where "s2 = s1\<lparr>joists := swapPop i (joists s1)\<rparr>"
    have s1: "joists s1 = joists s" "score s1 = score s + v" "gameOver s1 = gameOver s"
      "highScore s1 = highScore s" "localStorage s1 = localStorage s" "player s1 = player s"
      "obstacles s1 = obstacles s"
      by (simp_all add: s1_def v_def createCollectParticles_frame)
    have s2: "joists s2 = swapPop i (joists s)" "score s2 = score s + v"
      "gameOver s2 = gameOver s" "highScore s2 = highScore s"
      "localStorage s2 = localStorage s" "player s2 = player s" "obstacles s2 = obstacles s"
      by (simp_all add: s2_def s1)
    have step: "joistPass pb (Suc i) s = joistPass pb i s2"
      using True by (simp add: Let_def s2_def s1_def)
    have "i \<le> length (joists s2)"
      using i by (simp add: s2 swapPop_length)
    from Suc.IH [OF this] show ?thesis
      unfolding step using True
      by (simp add: s2 swapPop_take [OF i] swapPop_drop [OF i] tk v_def)
  qed
qed

lemma obstaclePass_None:
  "list_all (\<lambda>ob. \<not> rectOverlap pb (obstacleGetBounds ob)) obs \<Longrightarrow> obstaclePass pb obs s = None"
  by (induction obs) simp_all

lemma obstaclePass_Some:
  "\<exists>ob\<in>set obs. rectOverlap pb (obstacleGetBounds ob) \<Longrightarrow>
     obstaclePass pb obs s = Some (obstacleHit s)"
  by (induction obs) auto

lemma checkCollisions_no_hit:
  "list_all (\<lambda>ob. \<not> rectOverlap (playerGetBounds (player s)) (obstacleGetBounds ob))
     (obstacles s) \<Longrightarrow>
   checkCollisions s = joistPass (playerGetBounds (player s)) (length (joists s)) s"
  by (simp add: checkCollisions_def Let_def obstaclePass_None)

lemma checkCollisions_hit:
  "\<exists>ob\<in>set (obstacles s). rectOverlap (playerGetBounds (player s)) (obstacleGetBounds ob) \<Longrightarrow>
   checkCollisions s = obstacleHit s"
  by (simp add: checkCollisions_def Let_def obstaclePass_Some)

text \<open>
  Claim C5.  In a collision pass in which no obstacle overlaps the player, every joist
  that overlaps the player is collected: the score grows by 5 for each golden and by 1
  for each common joist that overlaps, exactly the overlapping joists leave the joist
  array (every other joist stays, each as often as before), and the run goes on.
  With a single overlapping joist that is one joist removed and 1 or 5 points added.
\<close>

theorem pickup_collection:
  "list_all (\<lambda>ob. \<not> rectOverlap (playerGetBounds (player s)) (obstacleGetBounds ob))
     (obstacles s) \<longrightarrow>
   score (checkCollisions s)
     = score s + sum_list (map (\<lambda>j. if j_isGolden j then 5 else 1)
                   (filter (\<lambda>j. rectOverlap (playerGetBounds (player s)) (joistGetBounds j))
                      (joists s)))
   \<and> mset (joists (checkCollisions s))
     = mset (joists s)
       - mset (filter (\<lambda>j. rectOverlap (playerGetBounds (player s)) (joistGetBounds j))
                 (joists s))
   \<and> mset (joists (checkCollisions s))
     = mset (filter (\<lambda>j. \<not> rectOverlap (playerGetBounds (player s)) (joistGetBounds j))
               (joists s))
   \<and> gameOver (checkCollisions s) = gameOver s
   \<and> highScore (checkCollisions s) = highScore s"
proof
  assume h: "list_all (\<lambda>ob. \<not> rectOverlap (playerGetBounds (player s)) (obstacleGetBounds ob))
     (obstacles s)"
  define pb where "pb = playerGetBounds (player s)"
  have cc: "checkCollisions s = joistPass pb (length (joists s)) s"
    using h by (simp add: checkCollisions_no_hit pb_def)
  have sp: "mset (joists (joistPass pb (length (joists s)) s))
       = mset (filter (\<lambda>j. \<not> rectOverlap pb (joistGetBounds j)) (joists s))
     \<and> score (joistPass pb (length (joists s)) s)
       = score s + sum_list (map (\<lambda>j. if j_isGolden j then 5 else 1)
                     (filter (\<lambda>j. rectOverlap pb (joistGetBounds j)) (joists s)))
     \<and> gameOver (joistPass pb (length (joists s)) s) = gameOver s
     \<and> highScore (joistPass pb (length (joists s)) s) = highScore s"
    using joistPass_spec [of "length (joists s)" s pb] by simp
  define A where "A = mset (filter (\<lambda>j. rectOverlap pb (joistGetBounds j)) (joists s))"
  define B where "B = mset (filter (\<lambda>j. \<not> rectOverlap pb (joistGetBounds j)) (joists s))"
  have "mset (joists s) = A + B"
    unfolding A_def B_def mset_filter by (rule multiset_partition)
  then have "mset (joists s) - A = A + B - A" by (rule arg_cong)
  then have "B = mset (joists s) - A" by simp
  then have diff: "mset (filter (\<lambda>j. \<not> rectOverlap pb (joistGetBounds j)) (joists s))
      = mset (joists s) - mset (filter (\<lambda>j. rectOverlap pb (joistGetBounds j)) (joists s))"
    by (simp only: A_def B_def)
  show "score (checkCollisions s)
     = score s + sum_list (map (\<lambda>j. if j_isGolden j then 5 else 1)
                   (filter (\<lambda>j. rectOverlap (playerGetBounds (player s)) (joistGetBounds j))
                      (joists s)))
   \<and> mset (joists (checkCollisions s))
     = mset (joists s)
       - mset (filter (\<lambda>j. rectOverlap (playerGetBounds (player s)) (joistGetBounds j))
                 (joists s))
   \<and> mset (joists (checkCollisions s))
     = mset (filter (\<lambda>j. \<not> rectOverlap (playerGetBounds (player s)) (joistGetBounds j))
               (joists s))
   \<and> gameOver (checkCollisions s) = gameOver s
   \<and> highScore (checkCollisions s) = highScore s"
    unfolding cc using sp diff unfolding pb_def by simp
qed

lemma demoPick_fields:
  "player demoPick = \<lparr>p_x = 120, p_y = 450, p_vy = 0, p_size = 60, p_onGround = True,
                      p_jumpAnimation = 0\<rparr>"
  "obstacles demoPick = [demoObstacle 600 452]"
  "joists demoPick = [demoJoist 120 450 False, demoJoist 600 400 False, demoJoist 130 440 True]"
  "score demoPick = 0"
  by (simp_all add: demoPick_def demoRun_fields demoRun_env)

lemma demo_overlaps:
  "\<not> rectOverlap \<lparr>b_left = 102, b_right = 138, b_top = 423, b_bottom = 477\<rparr>
       (obstacleGetBounds (demoObstacle 600 452))"
  "rectOverlap \<lparr>b_left = 102, b_right = 138, b_top = 423, b_bottom = 477\<rparr>
       (obstacleGetBounds (demoObstacle 120 452))"
  "rectOverlap \<lparr>b_left = 102, b_right = 138, b_top = 423, b_bottom = 477\<rparr>
       (obstacleGetBounds (demoObstacle 130 452))"
  "rectOverlap \<lparr>b_left = 102, b_right = 138, b_top = 423, b_bottom = 477\<rparr>
       (joistGetBounds (demoJoist 120 450 False))"
  "\<not> rectOverlap \<lparr>b_left = 102, b_right = 138, b_top = 423, b_bottom = 477\<rparr>
       (joistGetBounds (demoJoist 600 400 False))"
  "rectOverlap \<lparr>b_left = 102, b_right = 138, b_top = 423, b_bottom = 477\<rparr>
       (joistGetBounds (demoJoist 130 440 True))"
  by (simp_all add: rectOverlap_def obstacleGetBounds_def joistGetBounds_def demoObstacle_def
      demoJoist_def config_defs)

lemma demoPick_bounds:
  "playerGetBounds (player demoPick)
     = \<lparr>b_left = 102, b_right = 138, b_top = 423, b_bottom = 477\<rparr>"
  by (simp add: playerGetBounds_def Let_def demoPick_fields)

theorem pickup_collection_witness:
  "list_all (\<lambda>ob. \<not> rectOverlap (playerGetBounds (player demoPick)) (obstacleGetBounds ob))
     (obstacles demoPick)
   \<and> score (checkCollisions demoPick) = 6
   \<and> mset (joists (checkCollisions demoPick)) = {#demoJoist 600 400 False#}"
proof -
  have h: "list_all (\<lambda>ob. \<not> rectOverlap (playerGetBounds (player demoPick)) (obstacleGetBounds ob))
     (obstacles demoPick)"
    by (simp add: demoPick_bounds demoPick_fields(2) demo_overlaps)
  have j: "j_isGolden (demoJoist 130 440 True)" "\<not> j_isGolden (demoJoist 120 450 False)"
    by (simp_all add: demoJoist_def)
  from pickup_collection [of demoPick] h
  show ?thesis
    by (simp add: demoPick_bounds demoPick_fields(2,3,4) demo_overlaps j)
qed

lemma explosionParticle_active:
  "activeParticles (explosionParticle s) = activeParticles s @ [fst (acquire s)]"
  by (simp add: explosionParticle_def acquire_def random2_def Let_def split_def)

lemma explosionParticle_player: "player (explosionParticle s) = player s"
  using explosionParticle_shape [of s] by (simp add: particleShape_def)

lemma explosionParticle_heap:
  "heap (explosionParticle s) q =
     (if q = fst (acquire s) then
        \<lparr>pt_x = p_x (player s), pt_y = p_y (player s),
         pt_vx = rands s (rix s) * (5 - - 5) + - 5,
         pt_vy = rands s (rix s + 1) * (2 - - 8) + - 8,
         pt_size = rands s (rix s + 1 + 1) * (15 - 5) + 5,
         pt_color = (fst nucorGreen, fst (snd nucorGreen), snd (snd nucorGreen), 255),
         pt_life = PARTICLE_LIFETIME * 1.5, pt_active = True\<rparr>
      else heap s q)"
  by (simp add: explosionParticle_def acquire_def random2_def Let_def split_def)

lemma explosionParticle_marks:
  "isExplosionParticle (player s) (heap (explosionParticle s) q) \<longleftrightarrow>
     q = fst (acquire s) \<or> isExplosionParticle (player s) (heap s q)"
  by (simp add: explosionParticle_heap isExplosionParticle_def nucorGreen_def)

lemma explosionLoop_keep:
  "isExplosionParticle (player s) (heap s q) \<Longrightarrow>
     isExplosionParticle (player s) (heap (explosionLoop n s) q)"
proof (induction n arbitrary: s)
  case 0
  then show ?case by simp
next
  case (Suc n)
  have "isExplosionParticle (player (explosionParticle s)) (heap (explosionParticle s) q)"
    using Suc.prems by (simp add: explosionParticle_player explosionParticle_marks)
  from Suc.IH [OF this] show ?case
    by (simp add: explosionParticle_player)
qed

lemma explosionLoop_burst:
  "\<exists>new. length new = n
     \<and> activeParticles (explosionLoop n s) = activeParticles s @ new
     \<and> list_all (\<lambda>p. isExplosionParticle (player s) (heap (explosionLoop n s) p)) new"
proof (induction n arbitrary: s)
  case 0
  show ?case by simp
next
  case (Suc n)
  define s' where "s' = explosionParticle s"
  obtain new where new: "length new = n"
    "activeParticles (explosionLoop n s') = activeParticles s' @ new"
    "list_all (\<lambda>p. isExplosionParticle (player s') (heap (explosionLoop n s') p)) new"
    using Suc.IH [of s'] by blast
  have pl: "player s' = player s" by (simp add: s'_def explosionParticle_player)
  have "isExplosionParticle (player s') (heap s' (fst (acquire s)))"
    by (simp add: s'_def explosionParticle_player explosionParticle_marks)
  then have first: "isExplosionParticle (player s') (heap (explosionLoop n s') (fst (acquire s)))"
    by (rule explosionLoop_keep)
  have "length (fst (acquire s) # new) = Suc n
     \<and> activeParticles (explosionLoop (Suc n) s) = activeParticles s @ (fst (acquire s) # new)
     \<and> list_all (\<lambda>p. isExplosionParticle (player s) (heap (explosionLoop (Suc n) s) p))
          (fst (acquire s) # new)"
    using new first pl by (simp add: s'_def explosionParticle_active)
  then show ?case by blast
qed

lemma obstacleHit_spec:
  "gameOver (obstacleHit s)
   \<and> length (activeParticles (obstacleHit s)) = length (activeParticles s) + 30
   \<and> take (length (activeParticles s)) (activeParticles (obstacleHit s)) = activeParticles s
   \<and> list_all (\<lambda>p. isExplosionParticle (player s) (heap (obstacleHit s) p))
        (drop (length (activeParticles s)) (activeParticles (obstacleHit s)))
   \<and> highScore (obstacleHit s) = (if score s > highScore s then score s else highScore s)
   \<and> localStorage (obstacleHit s)
        = (if score s > highScore s \<and> \<not> storageThrows s then Some (score s)
           else localStorage s)
   \<and> score (obstacleHit s) = score s \<and> joists (obstacleHit s) = joists s
   \<and> obstacles (obstacleHit s) = obstacles s \<and> player (obstacleHit s) = player s"
proof -
  define s1 where "s1 = s\<lparr>gameOver := True\<rparr>"
  define s2 where "s2 = explosionLoop 30 s1"
  obtain new where new: "length new = 30"
    "activeParticles s2 = activeParticles s1 @ new"
    "list_all (\<lambda>p. isExplosionParticle (player s1) (heap s2 p)) new"
    using explosionLoop_burst [of 30 s1] unfolding s2_def by blast
  have fr: "gameOver s2" "score s2 = score s" "highScore s2 = highScore s"
    "localStorage s2 = localStorage s" "storageThrows s2 = storageThrows s"
    "joists s2 = joists s" "obstacles s2 = obstacles s" "player s2 = player s"
    by (simp_all add: s2_def explosionLoop_frame s1_def)
  have a: "activeParticles s2 = activeParticles s @ new" "player s1 = player s"
    using new(2) by (simp_all add: s1_def)
  have oh: "obstacleHit s =
      (if score s2 > highScore s2 then
         (if storageThrows s2 then s2\<lparr>highScore := score s2\<rparr>
          else s2\<lparr>highScore := score s2, localStorage := Some (score s2)\<rparr>)
       else s2)"
    by (simp add: obstacleHit_def Let_def s1_def s2_def)
  have act: "activeParticles (obstacleHit s) = activeParticles s @ new"
    and hp: "heap (obstacleHit s) = heap s2"
    by (simp_all add: oh a)
  show ?thesis
    using new(1,3) by (simp add: act hp a(2)) (simp add: oh fr)
qed


text \<open>
  Claim C1.  When some obstacle in the array overlaps the player, the collision pass sets
  the game-over flag, appends exactly 30 particles to the active particles (however many
  obstacles overlap), each at the player's position, in the player's colour and active,
  sets the high score to the score exactly when the score is greater (and stores it,
  unless the storage raises), and leaves score, joists, obstacles and player as they
  were: no joist is collected.  \<open>draw\<close> runs the collision pass only while the game is
  started and not over; once the flag is set a frame changes nothing, so the flag is set
  once per run.
\<close>

theorem obstacle_collision:
  "((\<exists>ob\<in>set (obstacles s).
        rectOverlap (playerGetBounds (player s)) (obstacleGetBounds ob)) \<longrightarrow>
      gameOver (checkCollisions s)
      \<and> length (activeParticles (checkCollisions s)) = length (activeParticles s) + 30
      \<and> take (length (activeParticles s)) (activeParticles (checkCollisions s))
          = activeParticles s
      \<and> list_all (\<lambda>p. isExplosionParticle (player s) (heap (checkCollisions s) p))
           (drop (length (activeParticles s)) (activeParticles (checkCollisions s)))
      \<and> highScore (checkCollisions s)
          = (if score s > highScore s then score s else highScore s)
      \<and> localStorage (checkCollisions s)
          = (if score s > highScore s \<and> \<not> storageThrows s then Some (score s)
             else localStorage s)
      \<and> score (checkCollisions s) = score s \<and> joists (checkCollisions s) = joists s
      \<and> obstacles (checkCollisions s) = obstacles s
      \<and> player (checkCollisions s) = player s)
   \<and> (gameStarted s \<and> \<not> gameOver s \<longrightarrow> draw s = checkCollisions (updateGame s))
   \<and> (gameOver s \<longrightarrow> draw s = s)"
proof (intro conjI impI)
  assume h: "\<exists>ob\<in>set (obstacles s).
        rectOverlap (playerGetBounds (player s)) (obstacleGetBounds ob)"
  have cc: "checkCollisions s = obstacleHit s"
    by (rule checkCollisions_hit [OF h])
  note sp = obstacleHit_spec [of s, folded cc]
  show "gameOver (checkCollisions s)" using sp by blast
  show "length (activeParticles (checkCollisions s)) = length (activeParticles s) + 30"
    using sp by blast
  show "take (length (activeParticles s)) (activeParticles (checkCollisions s))
          = activeParticles s" using sp by blast
  show "list_all (\<lambda>p. isExplosionParticle (player s) (heap (checkCollisions s) p))
           (drop (length (activeParticles s)) (activeParticles (checkCollisions s)))"
    using sp by blast
  show "highScore (checkCollisions s)
          = (if score s > highScore s then score s else highScore s)" using sp by blast
  show "localStorage (checkCollisions s)
          = (if score s > highScore s \<and> \<not> storageThrows s then Some (score s)
             else localStorage s)" using sp by blast
  show "score (checkCollisions s) = score s" using sp by blast
  show "joists (checkCollisions s) = joists s" using sp by blast
  show "obstacles (checkCollisions s) = obstacles s" using sp by blast
  show "player (checkCollisions s) = player s" using sp by blast
next
  assume "gameStarted s \<and> \<not> gameOver s"
  then show "draw s = checkCollisions (updateGame s)" by (simp add: draw_def)
next
  assume "gameOver s"
  then show "draw s = s" by (simp add: draw_def)
qed

lemma demoHit_fields:
  "player demoHit = \<lparr>p_x = 120, p_y = 450, p_vy = 0, p_size = 60, p_onGround = True,
                      p_jumpAnimation = 0\<rparr>"
  "obstacles demoHit = [demoObstacle 600 452, demoObstacle 120 452, demoObstacle 130 452]"
  "joists demoHit = [demoJoist 120 450 False]"
  "score demoHit = 7" "highScore demoHit = 0" "activeParticles demoHit = []"
  "particlePool demoHit = []" "nextRef demoHit = 0"
  "localStorage demoHit = None" "\<not> storageThrows demoHit"
  "gameStarted demoHit" "\<not> gameOver demoHit"
  by (simp_all add: demoHit_def demoRun_fields demoRun_env)

lemma demoHit_overlap:
  "\<exists>ob\<in>set (obstacles demoHit).
     rectOverlap (playerGetBounds (player demoHit)) (obstacleGetBounds ob)"
  by (simp add: playerGetBounds_def Let_def demoHit_fields demo_overlaps)

theorem obstacle_collision_witness:
  "(\<exists>ob\<in>set (obstacles demoHit).
        rectOverlap (playerGetBounds (player demoHit)) (obstacleGetBounds ob))
   \<and> gameOver (checkCollisions demoHit)
   \<and> length (activeParticles (checkCollisions demoHit)) = 30
   \<and> highScore (checkCollisions demoHit) = 7
   \<and> localStorage (checkCollisions demoHit) = Some 7
   \<and> score (checkCollisions demoHit) = 7
   \<and> joists (checkCollisions demoHit) = [demoJoist 120 450 False]
   \<and> (gameStarted demoHit \<and> \<not> gameOver demoHit)
   \<and> draw demoHit = checkCollisions (updateGame demoHit)
   \<and> draw (checkCollisions demoHit) = checkCollisions demoHit"
proof -
  note a = obstacle_collision [of demoHit]
  from a demoHit_overlap have g: "gameOver (checkCollisions demoHit)" by blast
  note b = obstacle_collision [of "checkCollisions demoHit"]
  from b g have d: "draw (checkCollisions demoHit) = checkCollisions demoHit" by blast
  from a demoHit_overlap
  have c: "length (activeParticles (checkCollisions demoHit))
             = length (activeParticles demoHit) + 30
      \<and> highScore (checkCollisions demoHit)
          = (if score demoHit > highScore demoHit then score demoHit else highScore demoHit)
      \<and> localStorage (checkCollisions demoHit)
          = (if score demoHit > highScore demoHit \<and> \<not> storageThrows demoHit
             then Some (score demoHit) else localStorage demoHit)
      \<and> score (checkCollisions demoHit) = score demoHit
      \<and> joists (checkCollisions demoHit) = joists demoHit"
    by blast
  from a demoHit_fields(11,12) have e: "draw demoHit = checkCollisions (updateGame demoHit)"
    by blast
  show ?thesis
    using demoHit_overlap g d c e by (simp add: demoHit_fields)
qed

subsection \<open>The particle pool\<close>

lemma particlesOk_cong:
  "heap s' = heap s \<Longrightarrow> nextRef s' = nextRef s \<Longrightarrow> activeParticles s' = activeParticles s \<Longrightarrow>
   particlePool s' = particlePool s \<Longrightarrow> particlesOk s' = particlesOk s"
  by (simp add: particlesOk_def)

lemma ownedParticles_cong:
  "activeParticles s' = activeParticles s \<Longrightarrow> particlePool s' = particlePool s \<Longrightarrow>
   ownedParticles s' = ownedParticles s"
  by (simp add: ownedParticles_def)

lemma acquire_fields:
  "heap (snd (acquire s)) = heap s" "activeParticles (snd (acquire s)) = activeParticles s"
  "player (snd (acquire s)) = player s" "rands (snd (acquire s)) = rands s"
  "rix (snd (acquire s)) = rix s"
  by (simp_all add: acquire_def)

lemma particlesOk_spawn:
  assumes ok: "particlesOk s"
    and h: "heap s' = (heap s)(fst (acquire s) := obj)"
    and n: "nextRef s' = nextRef (snd (acquire s))"
    and a: "activeParticles s' = activeParticles s @ [fst (acquire s)]"
    and p: "particlePool s' = particlePool (snd (acquire s))"
  shows "particlesOk s'"
proof (cases "particlePool s" rule: rev_cases)
  case Nil
  then have acq: "fst (acquire s) = nextRef s" "nextRef (snd (acquire s)) = nextRef s + 1"
    "particlePool (snd (acquire s)) = []"
    by (simp_all add: acquire_def)
  have "\<forall>q\<in>set (activeParticles s). q < nextRef s"
    using ok by (simp add: particlesOk_def list_all_iff)
  then show ?thesis
    using ok Nil by (auto simp: particlesOk_def h n a p acq list_all_iff)
next
  case (snoc ys l)
  then have acq: "fst (acquire s) = l" "nextRef (snd (acquire s)) = nextRef s"
    "particlePool (snd (acquire s)) = ys"
    by (simp_all add: acquire_def)
  show ?thesis
    using ok snoc by (auto simp: particlesOk_def h n a p acq list_all_iff)
qed

lemma ownedParticles_spawn:
  assumes a: "activeParticles s' = activeParticles s @ [fst (acquire s)]"
    and p: "particlePool s' = particlePool (snd (acquire s))"
  shows "ownedParticles s \<subseteq># ownedParticles s'"
proof (cases "particlePool s" rule: rev_cases)
  case Nil
  then have "particlePool (snd (acquire s)) = []" by (simp add: acquire_def)
  then show ?thesis using Nil by (simp add: ownedParticles_def a p)
next
  case (snoc ys l)
  then have "fst (acquire s) = l" "particlePool (snd (acquire s)) = ys"
    by (simp_all add: acquire_def)
  then show ?thesis using snoc by (simp add: ownedParticles_def a p)
qed

lemma collectParticle_fields:
  "heap (collectParticle x y c s) =
     (heap s)(fst (acquire s) :=
        \<lparr>pt_x = x, pt_y = y, pt_vx = rands s (rix s) * (3 - - 3) + - 3,
         pt_vy = rands s (rix s + 1) * (0 - - 5) + - 5,
         pt_size = rands s (rix s + 1 + 1) * (8 - 3) + 3,
         pt_color = (fst c, fst (snd c), snd (snd c), 255),
         pt_life = PARTICLE_LIFETIME, pt_active = True\<rparr>)"
  "nextRef (collectParticle x y c s) = nextRef (snd (acquire s))"
  "activeParticles (collectParticle x y c s) = activeParticles s @ [fst (acquire s)]"
  "particlePool (collectParticle x y c s) = particlePool (snd (acquire s))"
  by (simp_all add: collectParticle_def random2_def Let_def split_def acquire_fields)

lemma explosionParticle_fields:
  "heap (explosionParticle s) =
     (heap s)(fst (acquire s) :=
        \<lparr>pt_x = p_x (player s), pt_y = p_y (player s),
         pt_vx = rands s (rix s) * (5 - - 5) + - 5,
         pt_vy = rands s (rix s + 1) * (2 - - 8) + - 8,
         pt_size = rands s (rix s + 1 + 1) * (15 - 5) + 5,
         pt_color = (fst nucorGreen, fst (snd nucorGreen), snd (snd nucorGreen), 255),
         pt_life = PARTICLE_LIFETIME * 1.5, pt_active = True\<rparr>)"
  "nextRef (explosionParticle s) = nextRef (snd (acquire s))"
  "activeParticles (explosionParticle s) = activeParticles s @ [fst (acquire s)]"
  "particlePool (explosionParticle s) = particlePool (snd (acquire s))"
  by (simp_all add: explosionParticle_def random2_def Let_def split_def acquire_fields)

lemma collectParticle_ok: "particlesOk s \<Longrightarrow> particlesOk (collectParticle x y c s)"
  by (erule particlesOk_spawn) (rule collectParticle_fields)+

lemma explosionParticle_ok: "particlesOk s \<Longrightarrow> particlesOk (explosionParticle s)"
  by (erule particlesOk_spawn) (rule explosionParticle_fields)+

lemma collectLoop_ok: "particlesOk s \<Longrightarrow> particlesOk (collectLoop n x y c s)"
  by (induction n arbitrary: s) (simp_all add: collectParticle_ok)

lemma explosionLoop_ok: "particlesOk s \<Longrightarrow> particlesOk (explosionLoop n s)"
  by (induction n arbitrary: s) (simp_all add: explosionParticle_ok)

lemma collectParticle_owned: "ownedParticles s \<subseteq># ownedParticles (collectParticle x y c s)"
  by (rule ownedParticles_spawn) (rule collectParticle_fields)+

lemma explosionParticle_owned: "ownedParticles s \<subseteq># ownedParticles (explosionParticle s)"
  by (rule ownedParticles_spawn) (rule explosionParticle_fields)+

lemma collectLoop_owned: "ownedParticles s \<subseteq># ownedParticles (collectLoop n x y c s)"
proof (induction n arbitrary: s)
  case 0
  show ?case by simp
next
  case (Suc n)
  have "ownedParticles s \<subseteq># ownedParticles (collectParticle x y c s)"
    by (rule collectParticle_owned)
  also have "\<dots> \<subseteq># ownedParticles (collectLoop n x y c (collectParticle x y c s))"
    by (rule Suc.IH)
  finally show ?case by simp
qed

lemma explosionLoop_owned: "ownedParticles s \<subseteq># ownedParticles (explosionLoop n s)"
proof (induction n arbitrary: s)
  case 0
  show ?case by simp
next
  case (Suc n)
  have "ownedParticles s \<subseteq># ownedParticles (explosionParticle s)"
    by (rule explosionParticle_owned)
  also have "\<dots> \<subseteq># ownedParticles (explosionLoop n (explosionParticle s))"
    by (rule Suc.IH)
  finally show ?case by simp
qed


lemma particleLoop_ok:
  "i \<le> length (activeParticles s) \<Longrightarrow> particlesOk s \<Longrightarrow> particlesOk (particleLoop i s)"
proof (induction i arbitrary: s)
  case 0
  then show ?case by simp
next
  case (Suc i)
  then have i: "i < length (activeParticles s)" by simp
  define p where "p = activeParticles s ! i"
  have pin: "p \<in> set (activeParticles s)" using i by (simp add: p_def)
  have ok: "distinct (activeParticles s)" "distinct (particlePool s)"
    "set (activeParticles s) \<inter> set (particlePool s) = {}"
    "\<forall>q\<in>set (activeParticles s). q < nextRef s" "\<forall>q\<in>set (particlePool s). q < nextRef s"
    "\<forall>q\<in>set (particlePool s). \<not> pt_active (heap s q)"
    using Suc.prems(2) by (auto simp: particlesOk_def list_all_iff)
  have pnp: "p \<notin> set (particlePool s)" using pin ok(3) by blast
  have sw: "distinct (swapPop i (activeParticles s))"
    "set (swapPop i (activeParticles s)) = set (activeParticles s) - {p}"
    using swapPop_distinct [OF i ok(1)] by (simp_all add: p_def)
  have keep: "\<And>obj. particlesOk (s\<lparr>heap := (heap s)(p := obj)\<rparr>)"
    using ok pnp by (auto simp: particlesOk_def list_all_iff)
  have move: "\<And>obj. \<not> pt_active obj \<Longrightarrow>
      particlesOk (s\<lparr>heap := (heap s)(p := obj), particlePool := particlePool s @ [p],
                     activeParticles := swapPop i (activeParticles s)\<rparr>)"
    using ok pnp pin sw by (auto simp: particlesOk_def list_all_iff)
  have len: "i \<le> length (swapPop i (activeParticles s))"
    using i by (simp add: swapPop_length)
  show ?case
    using i len by (auto simp: Let_def p_def [symmetric] intro!: Suc.IH keep move)
qed

lemma particleLoop_owned:
  "i \<le> length (activeParticles s) \<Longrightarrow> ownedParticles (particleLoop i s) = ownedParticles s"
proof (induction i arbitrary: s)
  case 0
  then show ?case by simp
next
  case (Suc i)
  then have i: "i < length (activeParticles s)" by simp
  define p where "p = activeParticles s ! i"
  have keep: "\<And>h. ownedParticles (s\<lparr>heap := h\<rparr>) = ownedParticles s"
    by (simp add: ownedParticles_def)
  have move: "\<And>h. ownedParticles (s\<lparr>heap := h, particlePool := particlePool s @ [p],
                     activeParticles := swapPop i (activeParticles s)\<rparr>) = ownedParticles s"
    using swapPop_mset [OF i] by (simp add: ownedParticles_def p_def)
  have len: "i \<le> length (swapPop i (activeParticles s))"
    using i by (simp add: swapPop_length)
  have le: "i \<le> length (activeParticles s)" using i by simp
  show ?case
    using len le by (simp add: Let_def p_def [symmetric] Suc.IH keep move)
qed

lemma updateParticles_ok: "particlesOk s \<Longrightarrow> particlesOk (updateParticles s)"
  by (simp add: updateParticles_def particleLoop_ok)

lemma updateParticles_owned: "ownedParticles (updateParticles s) = ownedParticles s"
  by (simp add: updateParticles_def particleLoop_owned)

lemma obstacleHit_pfields:
  "heap (obstacleHit s) = heap (explosionLoop 30 (s\<lparr>gameOver := True\<rparr>))"
  "nextRef (obstacleHit s) = nextRef (explosionLoop 30 (s\<lparr>gameOver := True\<rparr>))"
  "activeParticles (obstacleHit s) = activeParticles (explosionLoop 30 (s\<lparr>gameOver := True\<rparr>))"
  "particlePool (obstacleHit s) = particlePool (explosionLoop 30 (s\<lparr>gameOver := True\<rparr>))"
  by (simp_all add: obstacleHit_def Let_def)

lemma obstacleHit_ok: "particlesOk s \<Longrightarrow> particlesOk (obstacleHit s)"
proof -
  assume ok: "particlesOk s"
  have "particlesOk (s\<lparr>gameOver := True\<rparr>) = particlesOk s"
    by (rule particlesOk_cong) simp_all
  with ok have "particlesOk (explosionLoop 30 (s\<lparr>gameOver := True\<rparr>))"
    by (simp add: explosionLoop_ok)
  moreover have "particlesOk (obstacleHit s)
      = particlesOk (explosionLoop 30 (s\<lparr>gameOver := True\<rparr>))"
    by (rule particlesOk_cong) (rule obstacleHit_pfields)+
  ultimately show ?thesis by simp
qed

lemma obstacleHit_owned: "ownedParticles s \<subseteq># ownedParticles (obstacleHit s)"
proof -
  have "ownedParticles (s\<lparr>gameOver := True\<rparr>) = ownedParticles s"
    by (rule ownedParticles_cong) simp_all
  then have "ownedParticles s \<subseteq># ownedParticles (explosionLoop 30 (s\<lparr>gameOver := True\<rparr>))"
    using explosionLoop_owned [of "s\<lparr>gameOver := True\<rparr>" 30] by simp
  moreover have "ownedParticles (obstacleHit s)
      = ownedParticles (explosionLoop 30 (s\<lparr>gameOver := True\<rparr>))"
    by (rule ownedParticles_cong) (rule obstacleHit_pfields)+
  ultimately show ?thesis by simp
qed

lemma createCollectParticles_ok:
  "particlesOk s \<Longrightarrow> particlesOk (createCollectParticles x y c s)"
  by (simp add: createCollectParticles_def collectLoop_ok)

lemma createCollectParticles_owned:
  "ownedParticles s \<subseteq># ownedParticles (createCollectParticles x y c s)"
  by (simp add: createCollectParticles_def collectLoop_owned)

lemma joistPass_ok: "particlesOk s \<Longrightarrow> particlesOk (joistPass pb i s)"
proof (induction i arbitrary: s)
  case 0
  then show ?case by simp
next
  case (Suc i)
  have sc: "\<And>v. particlesOk (s\<lparr>score := v\<rparr>)"
    using Suc.prems by (simp add: particlesOk_def)
  have jo: "\<And>t js. particlesOk t \<Longrightarrow> particlesOk (t\<lparr>joists := js\<rparr>)"
    by (simp add: particlesOk_def)
  show ?case
    using Suc.prems
    by (auto simp: Let_def intro!: Suc.IH jo createCollectParticles_ok sc)
qed

lemma joistPass_owned: "ownedParticles s \<subseteq># ownedParticles (joistPass pb i s)"
proof (induction i arbitrary: s)
  case 0
  show ?case by simp
next
  case (Suc i)
  have step: "\<And>x y c v. ownedParticles s
      \<subseteq># ownedParticles ((createCollectParticles x y c (s\<lparr>score := v\<rparr>))
            \<lparr>joists := swapPop i (joists (createCollectParticles x y c (s\<lparr>score := v\<rparr>)))\<rparr>)"
  proof -
    fix x y c v
    have "ownedParticles (s\<lparr>score := v\<rparr>) = ownedParticles s"
      by (simp add: ownedParticles_def)
    then have "ownedParticles s \<subseteq># ownedParticles (createCollectParticles x y c (s\<lparr>score := v\<rparr>))"
      using createCollectParticles_owned [of "s\<lparr>score := v\<rparr>" x y c] by simp
    then show "ownedParticles s
      \<subseteq># ownedParticles ((createCollectParticles x y c (s\<lparr>score := v\<rparr>))
            \<lparr>joists := swapPop i (joists (createCollectParticles x y c (s\<lparr>score := v\<rparr>)))\<rparr>)"
      by (simp add: ownedParticles_def)
  qed
  show ?case
    by (auto simp: Let_def intro: Suc.IH subset_mset.order_trans [OF step Suc.IH])
qed

lemma obstaclePass_cases:
  "obstaclePass pb obs s = None \<or> obstaclePass pb obs s = Some (obstacleHit s)"
  by (induction obs) simp_all

lemma checkCollisions_ok: "particlesOk s \<Longrightarrow> particlesOk (checkCollisions s)"
  using obstaclePass_cases [of "playerGetBounds (player s)" "obstacles s" s]
  by (auto simp: checkCollisions_def Let_def obstacleHit_ok joistPass_ok)

lemma checkCollisions_owned: "ownedParticles s \<subseteq># ownedParticles (checkCollisions s)"
  using obstaclePass_cases [of "playerGetBounds (player s)" "obstacles s" s]
  by (auto simp: checkCollisions_def Let_def obstacleHit_owned joistPass_owned)

lemma updateGame_pfields:
  "heap (updateGame s) = heap (updateParticles (handleJoists (handleObstacles (playerUpdate s))))"
  "nextRef (updateGame s)
     = nextRef (updateParticles (handleJoists (handleObstacles (playerUpdate s))))"
  "activeParticles (updateGame s)
     = activeParticles (updateParticles (handleJoists (handleObstacles (playerUpdate s))))"
  "particlePool (updateGame s)
     = particlePool (updateParticles (handleJoists (handleObstacles (playerUpdate s))))"
  by (simp_all add: updateGame_def Let_def playerHandleJumpRelease_def spawnElements_frame)

lemma preUpdate_pfields:
  "heap (handleJoists (handleObstacles (playerUpdate s))) = heap s"
  "nextRef (handleJoists (handleObstacles (playerUpdate s))) = nextRef s"
  "activeParticles (handleJoists (handleObstacles (playerUpdate s))) = activeParticles s"
  "particlePool (handleJoists (handleObstacles (playerUpdate s))) = particlePool s"
  by (simp_all add: handleJoists_def handleObstacles_def playerUpdate_def Let_def)

lemma updateGame_ok: "particlesOk s \<Longrightarrow> particlesOk (updateGame s)"
proof -
  assume ok: "particlesOk s"
  have "particlesOk (handleJoists (handleObstacles (playerUpdate s))) = particlesOk s"
    by (rule particlesOk_cong) (rule preUpdate_pfields)+
  with ok have "particlesOk (updateParticles (handleJoists (handleObstacles (playerUpdate s))))"
    by (simp add: updateParticles_ok)
  moreover have "particlesOk (updateGame s)
      = particlesOk (updateParticles (handleJoists (handleObstacles (playerUpdate s))))"
    by (rule particlesOk_cong) (rule updateGame_pfields)+
  ultimately show ?thesis by simp
qed

lemma updateGame_owned: "ownedParticles (updateGame s) = ownedParticles s"
proof -
  have "ownedParticles (updateGame s)
      = ownedParticles (updateParticles (handleJoists (handleObstacles (playerUpdate s))))"
    by (rule ownedParticles_cong) (rule updateGame_pfields)+
  also have "\<dots> = ownedParticles (handleJoists (handleObstacles (playerUpdate s)))"
    by (rule updateParticles_owned)
  also have "\<dots> = ownedParticles s"
    by (rule ownedParticles_cong) (rule preUpdate_pfields)+
  finally show ?thesis .
qed

lemma draw_ok: "particlesOk s \<Longrightarrow> particlesOk (draw s)"
  by (simp add: draw_def checkCollisions_ok updateGame_ok)

lemma draw_owned: "ownedParticles s \<subseteq># ownedParticles (draw s)"
  using checkCollisions_owned [of "updateGame s"]
  by (simp add: draw_def updateGame_owned)

lemma tick_ok: "particlesOk s \<Longrightarrow> particlesOk (tick s)"
proof -
  assume "particlesOk s"
  then have "particlesOk (s\<lparr>frameCount := frameCount s + 1\<rparr>)"
    by (simp add: particlesOk_def)
  then show ?thesis unfolding tick_def by (rule draw_ok)
qed

lemma tick_owned: "ownedParticles s \<subseteq># ownedParticles (tick s)"
  using draw_owned [of "s\<lparr>frameCount := frameCount s + 1\<rparr>"]
  by (simp add: tick_def ownedParticles_def)

lemma resetGame_ok: "particlesOk s \<Longrightarrow> particlesOk (resetGame s)"
  by (simp add: resetGame_def Let_def particlesOk_def)

lemma handleInputStart_ok: "particlesOk s \<Longrightarrow> particlesOk (handleInputStart s)"
  by (simp add: handleInputStart_def resetGame_ok playerJump_def) (simp add: particlesOk_def)

lemma handleInputEnd_ok: "particlesOk s \<Longrightarrow> particlesOk (handleInputEnd s)"
  by (simp add: handleInputEnd_def playerHandleJumpRelease_def Let_def particlesOk_def)

lemma windowResized_ok: "particlesOk s \<Longrightarrow> particlesOk (windowResized w h s)"
  by (simp add: windowResized_def Let_def particlesOk_def)

lemma gameSetup_ok: "particlesOk (gameSetup w h st th rs hp)"
  by (simp add: gameSetup_def resetGame_def Let_def particlesOk_def split: option.splits)

lemma handleEvent_ok: "particlesOk s \<Longrightarrow> particlesOk (handleEvent ev s)"
  by (cases ev) (simp_all add: tick_ok handleInputStart_ok handleInputEnd_ok windowResized_ok)

lemma run_ok: "particlesOk s \<Longrightarrow> particlesOk (run evs s)"
  unfolding run_def by (induction evs arbitrary: s) (simp_all add: handleEvent_ok)

lemma particlesOk_disjoint:
  "particlesOk s \<Longrightarrow>
     set (activeParticles s) \<inter> set (particlePool s) = {}
     \<and> list_all (\<lambda>p. \<not> pt_active (heap s p)) (particlePool s)"
  by (simp add: particlesOk_def)

lemma particleLoop_iter: "particleLoop (Suc i) s = particleLoop i (particleIter i s)"
  by (simp add: particleIter_def particleAdvance_def particleRetirePush_def
      particleRetireRemove_def Let_def)

lemma particleIter_ok:
  assumes "i < length (activeParticles s)" "particlesOk s"
  shows "particlesOk (particleIter i s)"
proof -
  define p where "p = activeParticles s ! i"
  have pin: "p \<in> set (activeParticles s)" using assms(1) by (simp add: p_def)
  have ok: "distinct (activeParticles s)" "distinct (particlePool s)"
    "set (activeParticles s) \<inter> set (particlePool s) = {}"
    "\<forall>q\<in>set (activeParticles s). q < nextRef s" "\<forall>q\<in>set (particlePool s). q < nextRef s"
    "\<forall>q\<in>set (particlePool s). \<not> pt_active (heap s q)"
    using assms(2) by (auto simp: particlesOk_def list_all_iff)
  have pnp: "p \<notin> set (particlePool s)" using pin ok(3) by blast
  have sw: "distinct (swapPop i (activeParticles s))"
    "set (swapPop i (activeParticles s)) = set (activeParticles s) - {p}"
    using swapPop_distinct [OF assms(1) ok(1)] by (simp_all add: p_def)
  have keep: "\<And>obj. particlesOk (s\<lparr>heap := (heap s)(p := obj)\<rparr>)"
    using ok pnp by (auto simp: particlesOk_def list_all_iff)
  have move: "\<And>obj. \<not> pt_active obj \<Longrightarrow>
      particlesOk (s\<lparr>heap := (heap s)(p := obj), particlePool := particlePool s @ [p],
                     activeParticles := swapPop i (activeParticles s)\<rparr>)"
    using ok pnp pin sw by (auto simp: particlesOk_def list_all_iff)
  show ?thesis
    by (auto simp: particleIter_def particleAdvance_def particleRetirePush_def
        particleRetireRemove_def Let_def p_def [symmetric] intro!: keep move)
qed

lemma demoExpire_fields:
  "activeParticles demoExpire = [0, 1]" "particlePool demoExpire = [2]"
  "nextRef demoExpire = 3"
  "heap demoExpire = (\<lambda>_. blankParticle)
                        (0 := demoParticle 1 True, 1 := demoParticle 20 True,
                         2 := demoParticle 0 False)"
  by (simp_all add: demoExpire_def)

lemma demoExpire_ok: "particlesOk demoExpire"
  by (simp add: particlesOk_def demoExpire_fields demoParticle_def)

lemma demoExpire_after_first:
  "activeParticles (particleIter (Suc 0) demoExpire) = [0, Suc 0]"
  "particlePool (particleIter (Suc 0) demoExpire) = [2]"
  "pt_life (heap (particleIter (Suc 0) demoExpire) 0) = 1"
  "pt_life (heap (particleIter (Suc 0) demoExpire) (Suc 0)) = 19"
  by (simp_all add: particleIter_def particleAdvance_def Let_def demoExpire_fields
      demoParticle_def)

lemma demoExpire_run:
  "updateParticles demoExpire = particleIter 0 (particleIter (Suc 0) demoExpire)"
  "particleIter 0 (particleIter (Suc 0) demoExpire)
     = particleRetireRemove 0
         (particleRetirePush 0 (particleAdvance 0 (particleIter (Suc 0) demoExpire)))"
proof -
  have "length (activeParticles demoExpire) = Suc (Suc 0)"
    by (simp add: demoExpire_fields)
  then show "updateParticles demoExpire = particleIter 0 (particleIter (Suc 0) demoExpire)"
    by (simp only: updateParticles_def particleLoop_iter particleLoop.simps(1))
  have "pt_life (heap (particleAdvance 0 (particleIter (Suc 0) demoExpire))
          (activeParticles (particleAdvance 0 (particleIter (Suc 0) demoExpire)) ! 0)) \<le> 0"
    by (simp add: particleAdvance_def Let_def demoExpire_after_first)
  then show "particleIter 0 (particleIter (Suc 0) demoExpire)
     = particleRetireRemove 0
         (particleRetirePush 0 (particleAdvance 0 (particleIter (Suc 0) demoExpire)))"
    by (simp only: particleIter_def [of 0] Let_def if_True)
qed

lemma demoExpire_midway:
  "activeParticles
     (particleRetirePush 0 (particleAdvance 0 (particleIter (Suc 0) demoExpire))) = [0, Suc 0]"
  "particlePool
     (particleRetirePush 0 (particleAdvance 0 (particleIter (Suc 0) demoExpire))) = [2, 0]"
  "\<not> pt_active
       (heap (particleRetirePush 0 (particleAdvance 0 (particleIter (Suc 0) demoExpire))) 0)"
  by (simp_all add: particleRetirePush_def particleAdvance_def Let_def demoExpire_after_first)

lemma demoExpire_final:
  "activeParticles (updateParticles demoExpire) = [Suc 0]"
  "particlePool (updateParticles demoExpire) = [2, 0]"
  by (simp_all only: demoExpire_run particleRetireRemove_def)
     (simp_all add: demoExpire_midway swapPop_def)


text \<open>
  Claim C9, as stated, fails inside \<open>updateParticles\<close>.  In \<open>demoExpire\<close> the loop first
  advances particle 1 and then particle 0, whose life reaches 0.  After
  \<open>particlePool.push(p)\<close> and before the swap and pop on \<open>activeParticles\<close>, particle 0
  is in both arrays.
\<close>

theorem particles_overlap_midway:
  "particlesOk demoExpire
   \<and> updateParticles demoExpire
       = particleRetireRemove 0
           (particleRetirePush 0 (particleAdvance 0 (particleIter 1 demoExpire)))
   \<and> activeParticles (particleRetirePush 0 (particleAdvance 0 (particleIter 1 demoExpire)))
       = [0, 1]
   \<and> particlePool (particleRetirePush 0 (particleAdvance 0 (particleIter 1 demoExpire)))
       = [2, 0]
   \<and> set (activeParticles
             (particleRetirePush 0 (particleAdvance 0 (particleIter 1 demoExpire))))
       \<inter> set (particlePool
                 (particleRetirePush 0 (particleAdvance 0 (particleIter 1 demoExpire))))
       \<noteq> {}"
  using demoExpire_ok demoExpire_run by (simp add: demoExpire_midway)

text \<open>
  Claim C9, amended.  After start-up and any sequence of events (frames, presses,
  releases, resizes) no particle reference is in both the active array and the pool, and
  no pooled particle has its \<open>active\<close> flag set.  The particle invariant, which implies
  both, is preserved by the creation of a collection burst, by the per-frame advance of
  the particles, by each whole iteration of its loop, and by the collision pass with its
  explosion burst.
\<close>

theorem particles_disjoint:
  "set (activeParticles (run evs (gameSetup windowWidth windowHeight stored throws rs hp)))
     \<inter> set (particlePool (run evs (gameSetup windowWidth windowHeight stored throws rs hp)))
     = {}
   \<and> list_all
       (\<lambda>p. \<not> pt_active
              (heap (run evs (gameSetup windowWidth windowHeight stored throws rs hp)) p))
       (particlePool (run evs (gameSetup windowWidth windowHeight stored throws rs hp)))
   \<and> (particlesOk s \<longrightarrow>
      set (activeParticles s) \<inter> set (particlePool s) = {}
      \<and> list_all (\<lambda>p. \<not> pt_active (heap s p)) (particlePool s)
      \<and> particlesOk (createCollectParticles x y c s)
      \<and> particlesOk (updateParticles s)
      \<and> particlesOk (checkCollisions s))
   \<and> (particlesOk s \<and> i < length (activeParticles s) \<longrightarrow> particlesOk (particleIter i s))"
proof -
  have "particlesOk (run evs (gameSetup windowWidth windowHeight stored throws rs hp))"
    by (rule run_ok [OF gameSetup_ok])
  from particlesOk_disjoint [OF this] particlesOk_disjoint [of s] show ?thesis
    by (simp add: createCollectParticles_ok updateParticles_ok checkCollisions_ok
        particleIter_ok)
qed

theorem particles_disjoint_witness:
  "particlesOk demoExpire
   \<and> activeParticles demoExpire = [0, 1] \<and> particlePool demoExpire = [2]
   \<and> set (activeParticles demoExpire) \<inter> set (particlePool demoExpire) = {}
   \<and> list_all (\<lambda>p. \<not> pt_active (heap demoExpire p)) (particlePool demoExpire)
   \<and> particlesOk (updateParticles demoExpire)
   \<and> activeParticles (updateParticles demoExpire) = [1]
   \<and> particlePool (updateParticles demoExpire) = [2, 0]
   \<and> set (activeParticles (updateParticles demoExpire))
        \<inter> set (particlePool (updateParticles demoExpire)) = {}
   \<and> list_all (\<lambda>p. \<not> pt_active (heap (updateParticles demoExpire) p))
        (particlePool (updateParticles demoExpire))
   \<and> 1 < length (activeParticles demoExpire)
   \<and> particlesOk (particleIter 1 demoExpire)
   \<and> particlesOk (createCollectParticles 120 450 joistGold demoExpire)
   \<and> particlesOk (checkCollisions demoExpire)"
proof -
  have len: "1 < length (activeParticles demoExpire)"
    by (simp add: demoExpire_fields)
  from particles_disjoint [where s = demoExpire and i = 1 and x = 120 and y = 450
      and c = joistGold] demoExpire_ok len
  have a: "set (activeParticles demoExpire) \<inter> set (particlePool demoExpire) = {}
      \<and> list_all (\<lambda>p. \<not> pt_active (heap demoExpire p)) (particlePool demoExpire)
      \<and> particlesOk (createCollectParticles 120 450 joistGold demoExpire)
      \<and> particlesOk (updateParticles demoExpire)
      \<and> particlesOk (checkCollisions demoExpire)
      \<and> particlesOk (particleIter 1 demoExpire)"
    by blast
  then have u: "particlesOk (updateParticles demoExpire)" by blast
  from particles_disjoint [where s = "updateParticles demoExpire"] u
  have b: "set (activeParticles (updateParticles demoExpire))
        \<inter> set (particlePool (updateParticles demoExpire)) = {}
   \<and> list_all (\<lambda>p. \<not> pt_active (heap (updateParticles demoExpire) p))
        (particlePool (updateParticles demoExpire))"
    by blast
  have f: "activeParticles demoExpire = [0, 1] \<and> particlePool demoExpire = [2]
     \<and> activeParticles (updateParticles demoExpire) = [1]
     \<and> particlePool (updateParticles demoExpire) = [2, 0]"
    by (simp add: demoExpire_fields demoExpire_final)
  from demoExpire_ok len a b f show ?thesis by blast
qed

lemma resetGame_owned: "ownedParticles (resetGame s) = mset (particlePool s)"
  by (simp add: resetGame_def Let_def ownedParticles_def)

lemma obstacleHit_gameStarted: "gameStarted (obstacleHit s) = gameStarted s"
  by (simp add: obstacleHit_def Let_def explosionLoop_frame)

text \<open>
  Claim C4, as stated, fails at a reset.  After the collision pass on \<open>demoHit\<close> the
  game is over and 30 explosion particles are active; the next press resets the run, and
  the reset empties the active array without returning its particles to the pool: the
  system owns 30 particles fewer than before.
\<close>

theorem particles_lost_on_reset:
  "gameStarted (checkCollisions demoHit) \<and> gameOver (checkCollisions demoHit)
   \<and> handleInputStart (checkCollisions demoHit) = resetGame (checkCollisions demoHit)
   \<and> size (ownedParticles (resetGame (checkCollisions demoHit))) + 30
        = size (ownedParticles (checkCollisions demoHit))
   \<and> \<not> ownedParticles (checkCollisions demoHit)
        \<subseteq># ownedParticles (resetGame (checkCollisions demoHit))"
proof -
  have cc: "checkCollisions demoHit = obstacleHit demoHit"
    by (rule checkCollisions_hit [OF demoHit_overlap])
  have g: "gameOver (obstacleHit demoHit)"
    and l: "length (activeParticles (obstacleHit demoHit)) = 30"
    using obstacleHit_spec [of demoHit] by (simp_all add: demoHit_fields)
  have st: "gameStarted (obstacleHit demoHit)"
    by (simp add: obstacleHit_gameStarted demoHit_fields)
  have hs: "handleInputStart (obstacleHit demoHit) = resetGame (obstacleHit demoHit)"
    using g st by (simp add: handleInputStart_def)
  have sz: "size (ownedParticles (resetGame (obstacleHit demoHit))) + 30
        = size (ownedParticles (obstacleHit demoHit))"
    unfolding resetGame_owned using l by (simp add: ownedParticles_def)
  have "\<not> size (ownedParticles (obstacleHit demoHit))
          \<le> size (ownedParticles (resetGame (obstacleHit demoHit)))"
    using sz by simp
  then have ns: "\<not> ownedParticles (obstacleHit demoHit)
        \<subseteq># ownedParticles (resetGame (obstacleHit demoHit))"
    using size_mset_mono by blast
  show ?thesis unfolding cc using g st hs sz ns by blast
qed

text \<open>
  Claim C4, amended.  The creation of a collection burst, the collision pass and a whole
  frame never remove a particle from the particles the system owns (active array plus
  pool, counted as a multiset of references), so their number never decreases; the
  per-frame advance, a release and a resize keep them exactly: a particle that expires
  moves from the active array to the pool.  A reset keeps the pool and empties the active
  array.
\<close>

theorem particles_conserved:
  "ownedParticles s \<subseteq># ownedParticles (createCollectParticles x y c s)
   \<and> ownedParticles (updateParticles s) = ownedParticles s
   \<and> ownedParticles s \<subseteq># ownedParticles (checkCollisions s)
   \<and> ownedParticles s \<subseteq># ownedParticles (tick s)
   \<and> size (ownedParticles s) \<le> size (ownedParticles (tick s))
   \<and> ownedParticles (handleInputEnd s) = ownedParticles s
   \<and> ownedParticles (windowResized w h s) = ownedParticles s
   \<and> particlePool (resetGame s) = particlePool s
   \<and> activeParticles (resetGame s) = []"
proof -
  have a: "ownedParticles (handleInputEnd s) = ownedParticles s"
    by (simp add: handleInputEnd_def playerHandleJumpRelease_def Let_def ownedParticles_def)
  have b: "ownedParticles (windowResized w h s) = ownedParticles s"
    by (simp add: windowResized_def Let_def ownedParticles_def)
  have c: "particlePool (resetGame s) = particlePool s \<and> activeParticles (resetGame s) = []"
    by (simp add: resetGame_def Let_def)
  have d: "size (ownedParticles s) \<le> size (ownedParticles (tick s))"
    by (rule size_mset_mono [OF tick_owned])
  show ?thesis
    using a b c d
    by (simp add: createCollectParticles_owned updateParticles_owned checkCollisions_owned
        tick_owned)
qed

end
